theory Spec2Isabelle
  imports Main "HOL-Library.Word"
begin

section \<open>Data model of key\_blob.cpp\<close>

type_synonym byte = "8 word"

datatype keymaster_error_t =
    KM_ERROR_OK
  | KM_ERROR_UNSUPPORTED_ALGORITHM
  | KM_ERROR_UNSUPPORTED_KEY_SIZE
  | KM_ERROR_INVALID_KEY_BLOB
  | KM_ERROR_MEMORY_ALLOCATION_FAILED

datatype keymaster_tag_t = TAG_ALGORITHM | TAG_KEY_SIZE

text \<open>
  What the C++ leaves undefined or fatal is made a value: an unchecked dereference outside
  the caller's range, a write the bounded writer refuses, and the \<open>assert\<close> of
  \<open>Serialize\<close>.
\<close>

datatype fault = OutOfBoundsRead | OutOfBoundsWrite | WriteRefused | AssertionFailed

text \<open>
  The fields of \<open>class KeyBlob\<close>; a member \<open>x_\<close> of the class is the field
  \<open>x_m\<close> here, since a name cannot end in an underscore. A \<open>UniquePtr<uint8_t[]>\<close> is
  \<open>None\<close> when null and \<open>Some bytes\<close> when it owns an array. The policy-set
  type \<open>AuthorizationSet\<close> is the type parameter \<open>'a\<close>.
\<close>

record 'a KeyBlob =
  error_m :: keymaster_error_t
  nonce_m :: "byte list option"
  encrypted_key_material_m :: "byte list option"
  key_material_length_m :: nat
  tag_m :: "byte list option"
  enforced_m :: 'a
  unenforced_m :: 'a
  algorithm_m :: "32 word"
  key_size_bits_m :: "32 word"

text \<open>
  Modelled from the spec: the constants \<open>KeyBlob::NONCE_LENGTH\<close> and
  \<open>KeyBlob::TAG_LENGTH\<close> are declared in key\_blob.h, which is not among the
  sources. The comment in \<open>Deserialize\<close> (the first 12 bytes of an unversioned key
  are the nonce) and the spec's scenario (12-byte nonce, 16-byte tag) give their values.
\<close>

definition NONCE_LENGTH :: nat where
  "NONCE_LENGTH = 12"

definition TAG_LENGTH :: nat where
  "TAG_LENGTH = 16"

definition BLOB_VERSION :: byte where
  "BLOB_VERSION = 0"

subsection \<open>Collaborators\<close>

text \<open>
  Modelled from the spec: \<open>AuthorizationSet\<close> (authorization\_set.h/.cpp) is not among
  the sources. Section 6 of the spec gives its interface: \<open>serializedSize()\<close>,
  \<open>serialize(buf, end) -> buf'\<close>, \<open>deserialize(&buf_ptr, end) -> bool\<close> and
  \<open>getTagValue(tag_id, &out) -> bool\<close>. It is taken as a parameter: a record of the
  four operations. \<open>as_Serialize s\<close> is the byte sequence the set emits;
  \<open>as_Deserialize this inp pos\<close> parses at cursor \<open>pos\<close> of the range
  \<open>inp\<close> and returns the success flag, the object after the call and the cursor
  after the call; \<open>as_GetTagValue s t\<close> is \<open>Some v\<close> when the lookup
  returns true and stores \<open>v\<close>.
\<close>

record 'a AuthorizationSet_ops =
  as_SerializedSize :: "'a \<Rightarrow> nat"
  as_Serialize :: "'a \<Rightarrow> byte list"
  as_Deserialize :: "'a \<Rightarrow> byte list \<Rightarrow> nat \<Rightarrow> bool \<times> 'a \<times> nat"
  as_GetTagValue :: "'a \<Rightarrow> keymaster_tag_t \<Rightarrow> 32 word option"

text \<open>
  Modelled from the spec: the allocator behind \<open>new uint8_t[n]\<close>. Whether an
  allocation of \<open>n\<close> bytes succeeds, and what a fresh array holds before it is
  written, are parameters of the environment.
\<close>

record env =
  alloc_ok :: "nat \<Rightarrow> bool"
  junk :: "nat \<Rightarrow> byte"

definition new_array :: "env \<Rightarrow> nat \<Rightarrow> byte list option" where
  "new_array ev n = (if alloc_ok ev n then Some (map (junk ev) [0..<n]) else None)"

text \<open>
  Modelled from the spec: the length-prefixed buffer primitives of
  google\_keymaster\_utils.h are not among the sources. Section 6 of the spec gives their
  contract: length fields are 4-byte integers; \<open>write(buf, end, length, data)\<close>
  returns the new position and refuses to write past \<open>end\<close>;
  \<open>read(buf_ptr, end, &out_length, &out_buffer)\<close> allocates \<open>out_length\<close>
  bytes, copies them, advances the cursor, and returns false on a bound or allocation
  failure without advancing. The byte order is not fixed by the spec; little-endian is
  used here. In a range \<open>inp\<close> the cursor is an index and \<open>end\<close> is
  \<open>length inp\<close>.
\<close>

definition encode_uint32 :: "nat \<Rightarrow> byte list" where
  "encode_uint32 n =
     [word_of_nat n, word_of_nat (n div 256), word_of_nat (n div 65536),
      word_of_nat (n div 16777216)]"

fun decode_uint32 :: "byte list \<Rightarrow> nat" where
  "decode_uint32 [a, b, c, d] = unat a + 256 * unat b + 65536 * unat c + 16777216 * unat d"
| "decode_uint32 _ = 0"

definition append_to_buf :: "byte list \<Rightarrow> nat \<Rightarrow> byte list \<Rightarrow> fault + (byte list \<times> nat)" where
  "append_to_buf out buf data =
     (if buf + length data \<le> length out
      then Inr (take buf out @ data @ drop (buf + length data) out, buf + length data)
      else Inl WriteRefused)"

text \<open>Reading \<open>n\<close> bytes through a pointer: a null pointer or a shorter array cannot supply them.\<close>

definition read_array :: "byte list option \<Rightarrow> nat \<Rightarrow> fault + byte list" where
  "read_array p n =
     (case p of
        None \<Rightarrow> (if n = 0 then Inr [] else Inl OutOfBoundsRead)
      | Some bs \<Rightarrow> (if n \<le> length bs then Inr (take n bs) else Inl OutOfBoundsRead))"

definition append_size_and_data_to_buf ::
  "byte list \<Rightarrow> nat \<Rightarrow> byte list option \<Rightarrow> nat \<Rightarrow> fault + (byte list \<times> nat)" where
  "append_size_and_data_to_buf out buf p n =
     (case read_array p n of
        Inl f \<Rightarrow> Inl f
      | Inr data \<Rightarrow> append_to_buf out buf (encode_uint32 n @ data))"

definition copy_from_buf :: "byte list \<Rightarrow> nat \<Rightarrow> nat \<Rightarrow> (byte list \<times> nat) option" where
  "copy_from_buf inp pos n =
     (if pos + n \<le> length inp then Some (take n (drop pos inp), pos + n) else None)"

definition copy_size_and_data_from_buf ::
  "env \<Rightarrow> byte list \<Rightarrow> nat \<Rightarrow> (nat \<times> byte list option \<times> nat) option" where
  "copy_size_and_data_from_buf ev inp pos =
     (if pos + 4 \<le> length inp then
        (let n = decode_uint32 (take 4 (drop pos inp)) in
         if pos + 4 + n \<le> length inp \<and> alloc_ok ev n
         then Some (n, Some (take n (drop (pos + 4) inp)), pos + 4 + n)
         else None)
      else None)"


section \<open>The operations of key\_blob.cpp\<close>

subsection \<open>Construction and key material\<close>

text \<open>
  \<open>KeyBlob(enforced, unenforced)\<close> initialises \<open>error_\<close> and the two sets; the
  three \<open>UniquePtr\<close>s start null. The constructor does not initialise
  \<open>key_material_length_\<close>, \<open>algorithm_\<close> and \<open>key_size_bits_\<close>: their
  starting values are the parameters \<open>l0\<close>, \<open>a0\<close>, \<open>k0\<close>.
\<close>

definition KeyBlob_of_sets :: "nat \<Rightarrow> 32 word \<Rightarrow> 32 word \<Rightarrow> 'a \<Rightarrow> 'a \<Rightarrow> 'a KeyBlob" where
  "KeyBlob_of_sets l0 a0 k0 enforced unenforced =
     \<lparr> error_m = KM_ERROR_OK, nonce_m = None, encrypted_key_material_m = None,
       key_material_length_m = l0, tag_m = None,
       enforced_m = enforced, unenforced_m = unenforced,
       algorithm_m = a0, key_size_bits_m = k0 \<rparr>"

definition SetEncryptedKey ::
  "'a KeyBlob \<Rightarrow> byte list \<Rightarrow> nat \<Rightarrow> byte list \<Rightarrow> byte list \<Rightarrow> 'a KeyBlob" where
  "SetEncryptedKey b encrypted_key_material encrypted_key_material_length nonce tag =
     b\<lparr> encrypted_key_material_m := Some encrypted_key_material,
        key_material_length_m := encrypted_key_material_length,
        nonce_m := Some nonce,
        tag_m := Some tag \<rparr>"

subsection \<open>SerializedSize and Serialize\<close>

text \<open>
  \<open>SerializedSize()\<close> adds \<open>size_t\<close> values, so the sum wraps; \<open>size_t\<close> is
  taken as 64 bits wide, and \<open>sizeof(uint32_t)\<close> is 4.
\<close>

definition SerializedSize :: "'a AuthorizationSet_ops \<Rightarrow> 'a KeyBlob \<Rightarrow> nat" where
  "SerializedSize ops b =
     (1 + 4 + NONCE_LENGTH + 4 + key_material_length_m b + 4 + TAG_LENGTH
        + as_SerializedSize ops (enforced_m b) + as_SerializedSize ops (unenforced_m b))
       mod 2 ^ 64"

definition and_then :: "fault + 'x \<Rightarrow> ('x \<Rightarrow> fault + 'y) \<Rightarrow> fault + 'y" where
  "and_then r k = (case r of Inl f \<Rightarrow> Inl f | Inr x \<Rightarrow> k x)"

text \<open>
  \<open>Serialize(buf, end)\<close>: \<open>out\<close> is the memory of the caller's buffer up to
  \<open>end\<close> (so \<open>end\<close> is \<open>length out\<close>) and \<open>buf\<close> the index where
  writing starts. The version byte is stored by \<open>*buf++ = BLOB_VERSION\<close> with no
  comparison against \<open>end\<close>; all later writes go through the bounded writer.
\<close>

definition Serialize ::
  "'a AuthorizationSet_ops \<Rightarrow> 'a KeyBlob \<Rightarrow> byte list \<Rightarrow> nat \<Rightarrow> fault + (byte list \<times> nat)" where
  "Serialize ops b out start =
     (if start < length out then
        and_then (append_size_and_data_to_buf (out[start := BLOB_VERSION]) (start + 1)
                    (nonce_m b) NONCE_LENGTH) (\<lambda>(o1, b1).
        and_then (append_size_and_data_to_buf o1 b1
                    (encrypted_key_material_m b) (key_material_length_m b)) (\<lambda>(o2, b2).
        and_then (append_size_and_data_to_buf o2 b2 (tag_m b) TAG_LENGTH) (\<lambda>(o3, b3).
        and_then (append_to_buf o3 b3 (as_Serialize ops (enforced_m b))) (\<lambda>(o4, b4).
        and_then (append_to_buf o4 b4 (as_Serialize ops (unenforced_m b))) (\<lambda>(o5, b5).
        if b5 - start = SerializedSize ops b then Inr (o5, b5) else Inl AssertionFailed)))))
      else Inl OutOfBoundsWrite)"

subsection \<open>ExtractKeyCharacteristics\<close>

definition ExtractKeyCharacteristics ::
  "'a AuthorizationSet_ops \<Rightarrow> 'a KeyBlob \<Rightarrow> bool \<times> 'a KeyBlob" where
  "ExtractKeyCharacteristics ops b =
     (case (case as_GetTagValue ops (enforced_m b) TAG_ALGORITHM of
              Some v \<Rightarrow> Some v
            | None \<Rightarrow> as_GetTagValue ops (unenforced_m b) TAG_ALGORITHM) of
        None \<Rightarrow> (False, b\<lparr>error_m := KM_ERROR_UNSUPPORTED_ALGORITHM\<rparr>)
      | Some a \<Rightarrow>
          (let b1 = b\<lparr>algorithm_m := a\<rparr> in
           case (case as_GetTagValue ops (enforced_m b1) TAG_KEY_SIZE of
                   Some v \<Rightarrow> Some v
                 | None \<Rightarrow> as_GetTagValue ops (unenforced_m b1) TAG_KEY_SIZE) of
             None \<Rightarrow> (False, b1\<lparr>error_m := KM_ERROR_UNSUPPORTED_KEY_SIZE\<rparr>)
           | Some k \<Rightarrow> (True, b1\<lparr>key_size_bits_m := k\<rparr>)))"

subsection \<open>The two parse attempts\<close>

text \<open>
  The condition of the \<open>if\<close> in \<open>Deserialize\<close> after the version test: a chain of
  \<open>||\<close> whose operands write the fields of the object as they go. The result is
  (all operands succeeded, the object as the chain left it, the cursor as the chain left it).
\<close>

definition parse_versioned ::
  "env \<Rightarrow> 'a AuthorizationSet_ops \<Rightarrow> 'a KeyBlob \<Rightarrow> byte list \<Rightarrow> nat \<Rightarrow> bool \<times> 'a KeyBlob \<times> nat" where
  "parse_versioned ev ops b inp pos =
     (case copy_size_and_data_from_buf ev inp pos of
        None \<Rightarrow> (False, b, pos)
      | Some (nonce_length, nb, p1) \<Rightarrow>
          (let b1 = b\<lparr>nonce_m := nb\<rparr> in
           if nonce_length \<noteq> NONCE_LENGTH then (False, b1, p1)
           else case copy_size_and_data_from_buf ev inp p1 of
             None \<Rightarrow> (False, b1, p1)
           | Some (kl, kb, p2) \<Rightarrow>
               (let b2 = b1\<lparr>key_material_length_m := kl, encrypted_key_material_m := kb\<rparr> in
                case copy_size_and_data_from_buf ev inp p2 of
                  None \<Rightarrow> (False, b2, p2)
                | Some (tag_length, tb, p3) \<Rightarrow>
                    (let b3 = b2\<lparr>tag_m := tb\<rparr> in
                     if tag_length \<noteq> TAG_LENGTH then (False, b3, p3)
                     else case as_Deserialize ops (enforced_m b3) inp p3 of
                       (ok4, e, p4) \<Rightarrow>
                         (let b4 = b3\<lparr>enforced_m := e\<rparr> in
                          if \<not> ok4 then (False, b4, p4)
                          else case as_Deserialize ops (unenforced_m b4) inp p4 of
                            (ok5, u, p5) \<Rightarrow> (ok5, b4\<lparr>unenforced_m := u\<rparr>, p5))))))"

text \<open>The condition of the second \<open>if\<close> in \<open>DeserializeUnversionedBlob\<close>, likewise.\<close>

definition parse_unversioned ::
  "env \<Rightarrow> 'a AuthorizationSet_ops \<Rightarrow> 'a KeyBlob \<Rightarrow> byte list \<Rightarrow> nat \<Rightarrow> bool \<times> 'a KeyBlob \<times> nat" where
  "parse_unversioned ev ops b inp pos =
     (case copy_from_buf inp pos NONCE_LENGTH of
        None \<Rightarrow> (False, b, pos)
      | Some (nb, p1) \<Rightarrow>
          (let b1 = b\<lparr>nonce_m := Some nb\<rparr> in
           case copy_size_and_data_from_buf ev inp p1 of
             None \<Rightarrow> (False, b1, p1)
           | Some (kl, kb, p2) \<Rightarrow>
               (let b2 = b1\<lparr>key_material_length_m := kl, encrypted_key_material_m := kb\<rparr> in
                case copy_from_buf inp p2 TAG_LENGTH of
                  None \<Rightarrow> (False, b2, p2)
                | Some (tb, p3) \<Rightarrow>
                    (let b3 = b2\<lparr>tag_m := Some tb\<rparr> in
                     case as_Deserialize ops (enforced_m b3) inp p3 of
                       (ok4, e, p4) \<Rightarrow>
                         (let b4 = b3\<lparr>enforced_m := e\<rparr> in
                          if \<not> ok4 then (False, b4, p4)
                          else case as_Deserialize ops (unenforced_m b4) inp p4 of
                            (ok5, u, p5) \<Rightarrow> (ok5, b4\<lparr>unenforced_m := u\<rparr>, p5))))))"

definition DeserializeUnversionedBlob ::
  "env \<Rightarrow> 'a AuthorizationSet_ops \<Rightarrow> 'a KeyBlob \<Rightarrow> byte list \<Rightarrow> nat \<Rightarrow> bool \<times> 'a KeyBlob \<times> nat" where
  "DeserializeUnversionedBlob ev ops b inp pos =
     (let b1 = b\<lparr>nonce_m := new_array ev NONCE_LENGTH\<rparr>;
          b2 = b1\<lparr>tag_m := new_array ev TAG_LENGTH\<rparr> in
      if nonce_m b2 = None \<or> tag_m b2 = None
      then (False, b2\<lparr>error_m := KM_ERROR_MEMORY_ALLOCATION_FAILED\<rparr>, pos)
      else case parse_unversioned ev ops b2 inp pos of
        (ok, b3, p) \<Rightarrow>
          if \<not> ok
          then (False, b3\<lparr>encrypted_key_material_m := None,
                            error_m := KM_ERROR_INVALID_KEY_BLOB\<rparr>, p)
          else (case ExtractKeyCharacteristics ops b3 of (r, b4) \<Rightarrow> (r, b4, p)))"

text \<open>
  The first attempt of \<open>Deserialize\<close>: the version test followed by the chain. The
  version byte has been read and the cursor advanced before the test.
\<close>

definition versioned_attempt ::
  "env \<Rightarrow> 'a AuthorizationSet_ops \<Rightarrow> 'a KeyBlob \<Rightarrow> byte list \<Rightarrow> nat \<Rightarrow> bool \<times> 'a KeyBlob \<times> nat" where
  "versioned_attempt ev ops b inp start =
     (if inp ! start \<noteq> BLOB_VERSION then (False, b, start + 1)
      else parse_versioned ev ops b inp (start + 1))"

text \<open>
  \<open>Deserialize(buf_ptr, end)\<close>: \<open>inp\<close> is the caller's range up to \<open>end\<close> and
  \<open>start\<close> the cursor \<open>*buf_ptr\<close>. The version byte is read by
  \<open>*(*buf_ptr)++\<close> with no comparison against \<open>end\<close>: with the cursor at
  \<open>end\<close> the read is outside the range.
\<close>

definition Deserialize ::
  "env \<Rightarrow> 'a AuthorizationSet_ops \<Rightarrow> 'a KeyBlob \<Rightarrow> byte list \<Rightarrow> nat
     \<Rightarrow> fault + (bool \<times> 'a KeyBlob \<times> nat)" where
  "Deserialize ev ops b inp start =
     (if start < length inp then
        (case versioned_attempt ev ops b inp start of
           (ok, b1, p1) \<Rightarrow>
             if \<not> ok then
               (case DeserializeUnversionedBlob ev ops b1 inp start of
                  (ok2, b2, p2) \<Rightarrow>
                    if \<not> ok2 then Inr (False, b2, p2)
                    else (case ExtractKeyCharacteristics ops b2 of (r, b3) \<Rightarrow> Inr (r, b3, p2)))
             else (case ExtractKeyCharacteristics ops b1 of (r, b3) \<Rightarrow> Inr (r, b3, p1)))
      else Inl OutOfBoundsRead)"


section \<open>The collaborators' contracts\<close>

text \<open>
  What the theorems below ask of the policy-set parameter, each a reading of its contract in
  section 6 of the spec: \<open>serializedSize()\<close> is the number of bytes \<open>serialize\<close>
  emits; \<open>deserialize\<close> of an emitted sequence, wherever it sits in the range and
  whatever follows it, succeeds, yields the set and stops right behind it; and
  \<open>deserialize\<close> fails on a sequence cut short.
\<close>

definition as_size_exact :: "'a AuthorizationSet_ops \<Rightarrow> bool" where
  "as_size_exact ops \<longleftrightarrow> (\<forall>s. as_SerializedSize ops s = length (as_Serialize ops s))"

definition as_round_trip :: "'a AuthorizationSet_ops \<Rightarrow> bool" where
  "as_round_trip ops \<longleftrightarrow>
     (\<forall>this s pre post.
        as_Deserialize ops this (pre @ as_Serialize ops s @ post) (length pre)
          = (True, s, length pre + length (as_Serialize ops s)))"

definition as_rejects_truncation :: "'a AuthorizationSet_ops \<Rightarrow> bool" where
  "as_rejects_truncation ops \<longleftrightarrow>
     (\<forall>this s pre k. k < length (as_Serialize ops s) \<longrightarrow>
        \<not> fst (as_Deserialize ops this (pre @ take k (as_Serialize ops s)) (length pre)))"

subsection \<open>A small policy set for concrete runs\<close>

text \<open>
  A policy set holding at most one ALGORITHM and one KEY\_SIZE value, each a byte. An absent
  attribute is written as the byte 0, a present one as the byte 1 followed by its value.
\<close>

type_synonym sample_set = "byte option \<times> byte option"

fun sample_field :: "byte option \<Rightarrow> byte list" where
  "sample_field None = [0]"
| "sample_field (Some v) = [1, v]"

definition sample_Serialize :: "sample_set \<Rightarrow> byte list" where
  "sample_Serialize s = sample_field (fst s) @ sample_field (snd s)"

definition sample_read_field :: "byte list \<Rightarrow> (byte option \<times> byte list) option" where
  "sample_read_field bs =
     (case bs of
        [] \<Rightarrow> None
      | f # r \<Rightarrow>
          if f = 0 then Some (None, r)
          else if f = 1 then (case r of [] \<Rightarrow> None | v # r' \<Rightarrow> Some (Some v, r'))
          else None)"

definition sample_Deserialize :: "sample_set \<Rightarrow> byte list \<Rightarrow> nat \<Rightarrow> bool \<times> sample_set \<times> nat" where
  "sample_Deserialize this inp pos =
     (case sample_read_field (drop pos inp) of
        None \<Rightarrow> (False, this, pos)
      | Some (a, r1) \<Rightarrow>
          (case sample_read_field r1 of
             None \<Rightarrow> (False, this, pos)
           | Some (k, r2) \<Rightarrow> (True, (a, k), length inp - length r2)))"

fun sample_GetTagValue :: "sample_set \<Rightarrow> keymaster_tag_t \<Rightarrow> 32 word option" where
  "sample_GetTagValue s TAG_ALGORITHM = map_option ucast (fst s)"
| "sample_GetTagValue s TAG_KEY_SIZE = map_option ucast (snd s)"

definition sample_ops :: "sample_set AuthorizationSet_ops" where
  "sample_ops =
     \<lparr> as_SerializedSize = (\<lambda>s. length (sample_Serialize s)),
       as_Serialize = sample_Serialize,
       as_Deserialize = sample_Deserialize,
       as_GetTagValue = sample_GetTagValue \<rparr>"

text \<open>An environment in which every allocation succeeds and fresh memory reads as zero.\<close>

definition plenty :: env where
  "plenty = \<lparr> alloc_ok = (\<lambda>n. True), junk = (\<lambda>i. 0) \<rparr>"

text \<open>An environment in which no allocation succeeds.\<close>

definition exhausted :: env where
  "exhausted = \<lparr> alloc_ok = (\<lambda>n. False), junk = (\<lambda>i. 0) \<rparr>"

text \<open>A starting object: what the parsing constructors hand to \<open>Deserialize\<close>.\<close>

definition blank :: "sample_set KeyBlob" where
  "blank = KeyBlob_of_sets 0 0 0 (None, None) (None, None)"


text \<open>
  The object after the two \<open>reset(new uint8_t[...])\<close> calls that open
  \<open>DeserializeUnversionedBlob\<close>.
\<close>

definition fresh_buffers :: "env \<Rightarrow> 'a KeyBlob \<Rightarrow> 'a KeyBlob" where
  "fresh_buffers ev b = b\<lparr>nonce_m := new_array ev NONCE_LENGTH, tag_m := new_array ev TAG_LENGTH\<rparr>"

text \<open>The size of the serialized object, as a sum of naturals, is a \<open>size_t\<close> value.\<close>

definition size_fits :: "'a AuthorizationSet_ops \<Rightarrow> 'a KeyBlob \<Rightarrow> bool" where
  "size_fits ops b \<longleftrightarrow>
     1 + 4 + NONCE_LENGTH + 4 + key_material_length_m b + 4 + TAG_LENGTH
       + as_SerializedSize ops (enforced_m b) + as_SerializedSize ops (unenforced_m b) < 2 ^ 64"

text \<open>The attribute \<open>t\<close> is found in the enforced or in the unenforced set of the object.\<close>

definition has_tag :: "'a AuthorizationSet_ops \<Rightarrow> 'a KeyBlob \<Rightarrow> keymaster_tag_t \<Rightarrow> bool" where
  "has_tag ops b t \<longleftrightarrow>
     as_GetTagValue ops (enforced_m b) t \<noteq> None \<or> as_GetTagValue ops (unenforced_m b) t \<noteq> None"

text \<open>
  What characteristic extraction on the object \<open>b\<close> has to report: success \<open>r\<close>
  exactly when both attributes are found, otherwise the error \<open>e\<close> of the first
  attribute that is missing.
\<close>

definition extraction_result ::
  "'a AuthorizationSet_ops \<Rightarrow> 'a KeyBlob \<Rightarrow> bool \<Rightarrow> keymaster_error_t \<Rightarrow> bool" where
  "extraction_result ops b r e \<longleftrightarrow>
     (r \<longleftrightarrow> has_tag ops b TAG_ALGORITHM \<and> has_tag ops b TAG_KEY_SIZE)
     \<and> (\<not> has_tag ops b TAG_ALGORITHM \<longrightarrow> e = KM_ERROR_UNSUPPORTED_ALGORITHM)
     \<and> (has_tag ops b TAG_ALGORITHM \<and> \<not> has_tag ops b TAG_KEY_SIZE \<longrightarrow>
          e = KM_ERROR_UNSUPPORTED_KEY_SIZE)"

text \<open>
  What the legacy attempt on the object \<open>b\<close> at cursor \<open>pos\<close> has to report:
  allocation failure when the nonce or tag allocation fails; invalid blob when the
  allocations succeed and the read chain fails; and what characteristic extraction reports
  on the object the read chain filled when it succeeds.
\<close>

definition legacy_result ::
  "env \<Rightarrow> 'a AuthorizationSet_ops \<Rightarrow> 'a KeyBlob \<Rightarrow> byte list \<Rightarrow> nat
     \<Rightarrow> bool \<Rightarrow> keymaster_error_t \<Rightarrow> bool" where
  "legacy_result ev ops b inp pos r e \<longleftrightarrow>
     (\<not> alloc_ok ev NONCE_LENGTH \<or> \<not> alloc_ok ev TAG_LENGTH \<longrightarrow>
        \<not> r \<and> e = KM_ERROR_MEMORY_ALLOCATION_FAILED)
     \<and> (alloc_ok ev NONCE_LENGTH \<and> alloc_ok ev TAG_LENGTH
          \<and> \<not> fst (parse_unversioned ev ops (fresh_buffers ev b) inp pos) \<longrightarrow>
        \<not> r \<and> e = KM_ERROR_INVALID_KEY_BLOB)
     \<and> (alloc_ok ev NONCE_LENGTH \<and> alloc_ok ev TAG_LENGTH
          \<and> fst (parse_unversioned ev ops (fresh_buffers ev b) inp pos) \<longrightarrow>
        extraction_result ops
          (fst (snd (parse_unversioned ev ops (fresh_buffers ev b) inp pos))) r e)"

text \<open>A pointer \<open>p\<close> from which \<open>n\<close> bytes can be read.\<close>

definition holds :: "byte list option \<Rightarrow> nat \<Rightarrow> bool" where
  "holds p n \<longleftrightarrow> (case p of None \<Rightarrow> n = 0 | Some bs \<Rightarrow> n \<le> length bs)"

text \<open>
  The scenario of section 8 of the spec, with a two-byte ciphertext: enforced set
  \<open>{ALGORITHM, KEY_SIZE}\<close>, empty unenforced set, zero nonce and tag.
\<close>

definition sample_blob :: "sample_set KeyBlob" where
  "sample_blob =
     SetEncryptedKey (KeyBlob_of_sets 0 0 0 (Some 32, Some 128) (None, None))
       [0xAA, 0xAA] 2 (replicate 12 0) (replicate 16 0)"

text \<open>
  A canonical header whose ciphertext (two bytes) is read, cut
  before the tag. The canonical attempt fails at the tag; in the legacy reading bytes 12 to
  15 (nonce bytes 8, 9, 10, 11) announce a ciphertext far longer than the input.
\<close>

definition cut_blob :: "byte list" where
  "cut_blob = [0, 12, 0, 0, 0, 1, 2, 3, 4, 5, 6, 7, 8, 9, 10, 11, 12, 2, 0, 0, 0, 170, 171]"

text \<open>
  A canonical blob cut inside the unenforced set: nonce (bytes 1 to 12), an empty
  ciphertext, the tag and the enforced set \<open>{ALGORITHM = 32, KEY_SIZE = 128}\<close> are
  there, the unenforced set is not.
\<close>

definition cut_blob_late :: "byte list" where
  "cut_blob_late =
     [0, 12, 0, 0, 0, 1, 2, 3, 4, 5, 6, 7, 8, 9, 10, 11, 12, 0, 0, 0, 0,
      16, 0, 0, 0, 1, 2, 3, 4, 5, 6, 7, 8, 9, 10, 11, 12, 13, 14, 15, 16, 1, 32, 1, 128]"

text \<open>The same key material with two empty policy sets.\<close>

definition bare_blob :: "sample_set KeyBlob" where
  "bare_blob =
     SetEncryptedKey (KeyBlob_of_sets 0 0 0 (None, None) (None, None))
       [0xAA, 0xAA] 2 (replicate 12 0) (replicate 16 0)"

text \<open>
  A blob whose nonce ends in four zero bytes and whose ciphertext carries, from its twelfth
  byte on, the bytes of two policy sets.
\<close>

definition trap_blob :: "sample_set KeyBlob" where
  "trap_blob =
     SetEncryptedKey (KeyBlob_of_sets 0 0 0 (Some 32, Some 128) (None, None))
       [0, 0, 0, 0, 0, 0, 0, 0, 0, 0, 0, 1, 32, 1, 128, 0, 0] 17
       [0, 0, 0, 0, 0, 0, 0, 0, 0, 0, 0, 0]
       [0, 0, 0, 0, 0, 0, 0, 0, 0, 0, 0, 0, 0, 0, 0, 0]"

section \<open>The canonical wire format, as the specification draws it\<close>

text \<open>
  Section 4 of the spec: the canonical layout is the version byte, the length-prefixed nonce,
  ciphertext and tag, and the two policy sets.
\<close>

definition versioned_wire ::
  "'a AuthorizationSet_ops \<Rightarrow> byte list \<Rightarrow> byte list \<Rightarrow> byte list \<Rightarrow> 'a \<Rightarrow> 'a \<Rightarrow> byte list" where
  "versioned_wire ops nonce ct tag enf unenf =
     [0] @ (encode_uint32 (length nonce) @ nonce) @ (encode_uint32 (length ct) @ ct)
       @ (encode_uint32 (length tag) @ tag) @ as_Serialize ops enf @ as_Serialize ops unenf"

section \<open>Facts about the buffer primitives\<close>

lemma length_encode_uint32: "length (encode_uint32 n) = 4"
  by (simp add: encode_uint32_def)

lemma length_versioned_wire:
  "length (versioned_wire ops nonce ct tag enf unenf) =
     1 + (4 + length nonce) + (4 + length ct) + (4 + length tag)
       + length (as_Serialize ops enf) + length (as_Serialize ops unenf)"
  by (simp add: versioned_wire_def length_encode_uint32)

lemma four_bytes_of_nat:
  "n mod 256 + 256 * (n div 256 mod 256) + 65536 * (n div 256 div 256 mod 256) +
     16777216 * (n div 256 div 256 div 256) = (n::nat)"
proof -
  define q1 where "q1 = n div 256"
  define q2 where "q2 = q1 div 256"
  define q3 where "q3 = q2 div 256"
  define r0 where "r0 = n mod 256"
  define r1 where "r1 = q1 mod 256"
  define r2 where "r2 = q2 mod 256"
  have e0: "n = r0 + 256 * q1" by (simp add: r0_def q1_def)
  have e1: "q1 = r1 + 256 * q2" by (simp add: r1_def q2_def)
  have e2: "q2 = r2 + 256 * q3" by (simp add: r2_def q3_def)
  have "r0 + 256 * r1 + 65536 * r2 + 16777216 * q3 = n"
    using e0 e1 e2 by linarith
  then show ?thesis
    by (simp add: q1_def q2_def q3_def r0_def r1_def r2_def)
qed

lemma decode_encode_uint32: "n < 2 ^ 32 \<Longrightarrow> decode_uint32 (encode_uint32 n) = n"
proof -
  assume "n < 2 ^ 32"
  have a: "n div 65536 = n div 256 div 256" and b: "n div 16777216 = n div 256 div 256 div 256"
    by (simp_all add: div_mult2_eq[symmetric])
  from \<open>n < 2 ^ 32\<close> show ?thesis
    unfolding encode_uint32_def decode_uint32.simps
    using four_bytes_of_nat[of n]
    by (simp add: unat_of_nat a b)
qed

lemma copy_from_buf_hit:
  "copy_from_buf (pre @ d @ post) (length pre) (length d) = Some (d, length pre + length d)"
  by (simp add: copy_from_buf_def)

lemma copy_size_and_data_hit:
  assumes "length d < 2 ^ 32" "alloc_ok ev (length d)"
  shows "copy_size_and_data_from_buf ev (pre @ encode_uint32 (length d) @ d @ post) (length pre)
           = Some (length d, Some d, length pre + 4 + length d)"
  using assms
  by (simp add: copy_size_and_data_from_buf_def length_encode_uint32 decode_encode_uint32 Let_def)


lemma read_array_length: "read_array p n = Inr d \<Longrightarrow> length d = n"
  by (auto simp: read_array_def split: option.splits if_splits)

lemma append_to_buf_app:
  "length pre = buf \<Longrightarrow> length data \<le> length rest \<Longrightarrow>
     append_to_buf (pre @ rest) buf data = Inr ((pre @ data) @ drop (length data) rest, buf + length data)"
  by (simp add: append_to_buf_def)

lemma append_size_and_data_app:
  "read_array p n = Inr d \<Longrightarrow> length pre = buf \<Longrightarrow> 4 + n \<le> length rest \<Longrightarrow>
     append_size_and_data_to_buf (pre @ rest) buf p n
       = Inr ((pre @ encode_uint32 n @ d) @ drop (4 + n) rest, buf + 4 + n)"
  by (simp add: append_size_and_data_to_buf_def append_to_buf_def length_encode_uint32 read_array_length)

lemma SerializedSize_fits:
  "size_fits ops b \<Longrightarrow>
     SerializedSize ops b =
       1 + 4 + NONCE_LENGTH + 4 + key_material_length_m b + 4 + TAG_LENGTH
         + as_SerializedSize ops (enforced_m b) + as_SerializedSize ops (unenforced_m b)"
  by (simp add: SerializedSize_def size_fits_def)

lemma Serialize_wire:
  assumes sz: "as_size_exact ops" and nw: "size_fits ops b"
    and rn: "read_array (nonce_m b) NONCE_LENGTH = Inr nn"
    and rc: "read_array (encrypted_key_material_m b) (key_material_length_m b) = Inr ct"
    and rt: "read_array (tag_m b) TAG_LENGTH = Inr tt"
    and fit: "start + SerializedSize ops b \<le> length out"
  shows "Serialize ops b out start =
           Inr (take start out @ versioned_wire ops nn ct tt (enforced_m b) (unenforced_m b)
                  @ drop (start + SerializedSize ops b) out,
                start + SerializedSize ops b)"
proof -
  let ?E = "as_Serialize ops (enforced_m b)" and ?U = "as_Serialize ops (unenforced_m b)"
  let ?n = "key_material_length_m b"
  have ln: "length nn = NONCE_LENGTH" and lc: "length ct = ?n" and lt: "length tt = TAG_LENGTH"
    using rn rc rt by (simp_all add: read_array_length)
  have size: "SerializedSize ops b = 1 + (4 + NONCE_LENGTH) + (4 + ?n) + (4 + TAG_LENGTH) + length ?E + length ?U"
    using sz by (simp add: SerializedSize_fits[OF nw] as_size_exact_def)
  have lt0: "start < length out" using fit size by simp
  define r0 where "r0 = drop (Suc start) out"
  define p0 where "p0 = take start out @ [BLOB_VERSION]"
  have s0: "out[start := BLOB_VERSION] = p0 @ r0" and lp0: "length p0 = start + 1"
    and lr0: "length r0 = length out - (start + 1)"
    using lt0 by (simp_all add: p0_def r0_def upd_conv_take_nth_drop)
  have room: "(4 + NONCE_LENGTH) + (4 + ?n) + (4 + TAG_LENGTH) + length ?E + length ?U \<le> length r0"
    using fit size lr0 by simp
  define p1 where "p1 = p0 @ encode_uint32 NONCE_LENGTH @ nn"
  define r1 where "r1 = drop (4 + NONCE_LENGTH) r0"
  have a1: "append_size_and_data_to_buf (out[start := BLOB_VERSION]) (start + 1) (nonce_m b) NONCE_LENGTH
              = Inr (p1 @ r1, start + 1 + 4 + NONCE_LENGTH)"
    unfolding s0 p1_def r1_def using room
    by (simp add: append_size_and_data_app[OF rn] lp0)
  have lp1: "length p1 = start + 1 + 4 + NONCE_LENGTH"
    by (simp add: p1_def lp0 length_encode_uint32 ln)
  have lr1: "(4 + ?n) + (4 + TAG_LENGTH) + length ?E + length ?U \<le> length r1"
    using room by (simp add: r1_def)
  define p2 where "p2 = p1 @ encode_uint32 ?n @ ct"
  define r2 where "r2 = drop (4 + ?n) r1"
  have a2: "append_size_and_data_to_buf (p1 @ r1) (start + 1 + 4 + NONCE_LENGTH)
              (encrypted_key_material_m b) ?n = Inr (p2 @ r2, start + 1 + 4 + NONCE_LENGTH + 4 + ?n)"
    unfolding p2_def r2_def using lr1
    by (simp add: append_size_and_data_app[OF rc] lp1)
  have lp2: "length p2 = start + 1 + 4 + NONCE_LENGTH + 4 + ?n"
    by (simp add: p2_def lp1 length_encode_uint32 lc)
  have lr2: "(4 + TAG_LENGTH) + length ?E + length ?U \<le> length r2"
    using lr1 by (simp add: r2_def)
  define p3 where "p3 = p2 @ encode_uint32 TAG_LENGTH @ tt"
  define r3 where "r3 = drop (4 + TAG_LENGTH) r2"
  have a3: "append_size_and_data_to_buf (p2 @ r2) (start + 1 + 4 + NONCE_LENGTH + 4 + ?n)
              (tag_m b) TAG_LENGTH = Inr (p3 @ r3, start + 1 + 4 + NONCE_LENGTH + 4 + ?n + 4 + TAG_LENGTH)"
    unfolding p3_def r3_def using lr2
    by (simp add: append_size_and_data_app[OF rt] lp2)
  have lp3: "length p3 = start + 1 + 4 + NONCE_LENGTH + 4 + ?n + 4 + TAG_LENGTH"
    by (simp add: p3_def lp2 length_encode_uint32 lt)
  have lr3: "length ?E + length ?U \<le> length r3"
    using lr2 by (simp add: r3_def)
  define r4 where "r4 = drop (length ?E) r3"
  have a4: "append_to_buf (p3 @ r3) (start + 1 + 4 + NONCE_LENGTH + 4 + ?n + 4 + TAG_LENGTH) ?E
              = Inr ((p3 @ ?E) @ r4, start + 1 + 4 + NONCE_LENGTH + 4 + ?n + 4 + TAG_LENGTH + length ?E)"
    unfolding r4_def using lr3 by (simp add: append_to_buf_app lp3)
  have lr4: "length ?U \<le> length r4" using lr3 by (simp add: r4_def)
  define r5 where "r5 = drop (length ?U) r4"
  have a5: "append_to_buf ((p3 @ ?E) @ r4) (start + 1 + 4 + NONCE_LENGTH + 4 + ?n + 4 + TAG_LENGTH + length ?E) ?U
              = Inr (((p3 @ ?E) @ ?U) @ r5, start + 1 + 4 + NONCE_LENGTH + 4 + ?n + 4 + TAG_LENGTH + length ?E + length ?U)"
    using append_to_buf_app[of "p3 @ ?E" "start + 1 + 4 + NONCE_LENGTH + 4 + ?n + 4 + TAG_LENGTH + length ?E" ?U r4] lr4
    by (simp add: lp3 r5_def)
  have r5eq: "r5 = drop (start + SerializedSize ops b) out"
    by (simp add: r5_def r4_def r3_def r2_def r1_def r0_def size add.commute add.left_commute)
  have weq: "((p3 @ ?E) @ ?U) = take start out @ versioned_wire ops nn ct tt (enforced_m b) (unenforced_m b)"
    by (simp add: p3_def p2_def p1_def p0_def versioned_wire_def ln lc lt BLOB_VERSION_def)
  have "Serialize ops b out start = Inr (((p3 @ ?E) @ ?U) @ r5, start + SerializedSize ops b)"
    unfolding Serialize_def and_then_def
    apply (simp only: lt0 if_True a1 a2 a3 a4 a5 sum.case prod.case)
    apply (simp add: size)
    done
  then have "Serialize ops b out start =
      Inr ((take start out @ versioned_wire ops nn ct tt (enforced_m b) (unenforced_m b))
             @ drop (start + SerializedSize ops b) out, start + SerializedSize ops b)"
    by (simp only: weq r5eq)
  then show ?thesis by simp
qed


lemma holds_read_array: "holds p n \<Longrightarrow> \<exists>d. read_array p n = Inr d"
  by (auto simp: holds_def read_array_def split: option.splits)

lemma sample_size_exact: "as_size_exact sample_ops"
  by (simp add: as_size_exact_def sample_ops_def)

lemmas sample_blob_simps =
  sample_blob_def SetEncryptedKey_def KeyBlob_of_sets_def NONCE_LENGTH_def TAG_LENGTH_def

lemma sample_blob_fits: "size_fits sample_ops sample_blob"
  by (simp add: size_fits_def sample_blob_simps sample_ops_def sample_Serialize_def)

text \<open>
  C9, amended: \<open>SerializedSize()\<close> is the sum 1 + 4 + NONCE\_LENGTH + 4 +
  key\_material\_length + 4 + TAG\_LENGTH plus the two policy sets' sizes, computed in
  \<open>size_t\<close>: it is the sum modulo 2^64, and the sum itself when that is below 2^64. For
  an object whose sum is below 2^64, whose nonce, ciphertext and tag pointers hold the bytes
  \<open>Serialize\<close> reads and whose policy sets emit as many bytes as they announce, and for
  every buffer with room for \<open>SerializedSize()\<close> bytes from the starting position,
  \<open>Serialize\<close> writes the canonical layout of the object, which is exactly
  \<open>SerializedSize()\<close> bytes long, at the starting position, leaves the rest of the
  buffer as it was, and returns the starting position advanced by \<open>SerializedSize()\<close>.
\<close>

theorem SerializedSize_sum_and_Serialize_writes_it:
  "SerializedSize ops b =
     (1 + 4 + NONCE_LENGTH + 4 + key_material_length_m b + 4 + TAG_LENGTH
        + as_SerializedSize ops (enforced_m b) + as_SerializedSize ops (unenforced_m b))
       mod 2 ^ 64
   \<and> (size_fits ops b \<longrightarrow>
        SerializedSize ops b =
          1 + 4 + NONCE_LENGTH + 4 + key_material_length_m b + 4 + TAG_LENGTH
            + as_SerializedSize ops (enforced_m b) + as_SerializedSize ops (unenforced_m b))
   \<and> (size_fits ops b \<and> as_size_exact ops \<and> holds (nonce_m b) NONCE_LENGTH
        \<and> holds (encrypted_key_material_m b) (key_material_length_m b)
        \<and> holds (tag_m b) TAG_LENGTH
        \<and> start + SerializedSize ops b \<le> length out
      \<longrightarrow> (\<exists>nn ct tt.
             read_array (nonce_m b) NONCE_LENGTH = Inr nn
           \<and> read_array (encrypted_key_material_m b) (key_material_length_m b) = Inr ct
           \<and> read_array (tag_m b) TAG_LENGTH = Inr tt
           \<and> length (versioned_wire ops nn ct tt (enforced_m b) (unenforced_m b))
               = SerializedSize ops b
           \<and> Serialize ops b out start =
               Inr (take start out @ versioned_wire ops nn ct tt (enforced_m b) (unenforced_m b)
                      @ drop (start + SerializedSize ops b) out,
                    start + SerializedSize ops b)))"
proof (intro conjI impI)
  show "SerializedSize ops b =
     (1 + 4 + NONCE_LENGTH + 4 + key_material_length_m b + 4 + TAG_LENGTH
        + as_SerializedSize ops (enforced_m b) + as_SerializedSize ops (unenforced_m b))
       mod 2 ^ 64"
    by (simp add: SerializedSize_def)
next
  assume "size_fits ops b"
  then show "SerializedSize ops b =
          1 + 4 + NONCE_LENGTH + 4 + key_material_length_m b + 4 + TAG_LENGTH
            + as_SerializedSize ops (enforced_m b) + as_SerializedSize ops (unenforced_m b)"
    by (rule SerializedSize_fits)
next
  assume h: "size_fits ops b \<and> as_size_exact ops \<and> holds (nonce_m b) NONCE_LENGTH
        \<and> holds (encrypted_key_material_m b) (key_material_length_m b)
        \<and> holds (tag_m b) TAG_LENGTH
        \<and> start + SerializedSize ops b \<le> length out"
  then obtain nn ct tt where r:
    "read_array (nonce_m b) NONCE_LENGTH = Inr nn"
    "read_array (encrypted_key_material_m b) (key_material_length_m b) = Inr ct"
    "read_array (tag_m b) TAG_LENGTH = Inr tt"
    using holds_read_array by blast
  have sz: "as_size_exact ops" and nw: "size_fits ops b"
    and fit: "start + SerializedSize ops b \<le> length out"
    using h by simp_all
  have "length (versioned_wire ops nn ct tt (enforced_m b) (unenforced_m b)) = SerializedSize ops b"
    using sz read_array_length[OF r(1)] read_array_length[OF r(2)] read_array_length[OF r(3)]
    by (simp add: length_versioned_wire SerializedSize_fits[OF nw] as_size_exact_def)
  with r Serialize_wire[OF sz nw r fit]
  show "\<exists>nn ct tt.
             read_array (nonce_m b) NONCE_LENGTH = Inr nn
           \<and> read_array (encrypted_key_material_m b) (key_material_length_m b) = Inr ct
           \<and> read_array (tag_m b) TAG_LENGTH = Inr tt
           \<and> length (versioned_wire ops nn ct tt (enforced_m b) (unenforced_m b))
               = SerializedSize ops b
           \<and> Serialize ops b out start =
               Inr (take start out @ versioned_wire ops nn ct tt (enforced_m b) (unenforced_m b)
                      @ drop (start + SerializedSize ops b) out,
                    start + SerializedSize ops b)"
    by blast
qed

theorem SerializedSize_sum_and_Serialize_writes_it_witness:
  "SerializedSize sample_ops sample_blob = 49
   \<and> size_fits sample_ops sample_blob \<and> as_size_exact sample_ops
   \<and> holds (nonce_m sample_blob) NONCE_LENGTH
   \<and> holds (encrypted_key_material_m sample_blob) (key_material_length_m sample_blob)
   \<and> holds (tag_m sample_blob) TAG_LENGTH
   \<and> 3 + SerializedSize sample_ops sample_blob \<le> length (replicate 60 (7::byte))
   \<and> (\<exists>w. length w = 49
          \<and> Serialize sample_ops sample_blob (replicate 60 7) 3
              = Inr (replicate 3 7 @ w @ replicate 8 7, 52))"
proof -
  have sz: "SerializedSize sample_ops sample_blob = 49"
    by (simp add: SerializedSize_def sample_blob_simps sample_ops_def sample_Serialize_def)
  have hs: "holds (nonce_m sample_blob) NONCE_LENGTH"
    "holds (encrypted_key_material_m sample_blob) (key_material_length_m sample_blob)"
    "holds (tag_m sample_blob) TAG_LENGTH"
    by (simp_all add: holds_def sample_blob_simps)
  have fit: "3 + SerializedSize sample_ops sample_blob \<le> length (replicate 60 (7::byte))"
    by (simp add: sz)
  obtain nn ct tt where
    "length (versioned_wire sample_ops nn ct tt (enforced_m sample_blob) (unenforced_m sample_blob))
       = SerializedSize sample_ops sample_blob"
    "Serialize sample_ops sample_blob (replicate 60 7) 3 =
       Inr (take 3 (replicate 60 7)
              @ versioned_wire sample_ops nn ct tt (enforced_m sample_blob) (unenforced_m sample_blob)
              @ drop (3 + SerializedSize sample_ops sample_blob) (replicate 60 7),
            3 + SerializedSize sample_ops sample_blob)"
    using SerializedSize_sum_and_Serialize_writes_it
            [where ops = sample_ops and b = sample_blob and start = 3 and out = "replicate 60 7"]
      sample_blob_fits sample_size_exact hs fit
    by blast
  then have "\<exists>w. length w = 49
          \<and> Serialize sample_ops sample_blob (replicate 60 7) 3
              = Inr (replicate 3 7 @ w @ replicate 8 7, 52)"
    by (simp add: sz)
  with sz sample_blob_fits sample_size_exact hs fit show ?thesis by simp
qed

text \<open>
  C9 as stated fails on both counts. With a key-material length of 2^64 - 1 the sum is
  2^64 + 46 and \<open>SerializedSize()\<close> returns 46. And a KeyBlob built from two policy sets
  that has been given no key material has a null nonce pointer: its \<open>SerializedSize()\<close>
  is 47, and \<open>Serialize\<close> into a 64-byte buffer reads NONCE\_LENGTH bytes through the
  null pointer instead of returning an advanced position.
\<close>

theorem SerializedSize_wraps_counterexample:
  "SerializedSize sample_ops (sample_blob\<lparr>key_material_length_m := 18446744073709551615\<rparr>) = 46
   \<and> SerializedSize sample_ops (sample_blob\<lparr>key_material_length_m := 18446744073709551615\<rparr>)
       \<noteq> 1 + 4 + NONCE_LENGTH + 4
           + key_material_length_m (sample_blob\<lparr>key_material_length_m := 18446744073709551615\<rparr>)
           + 4 + TAG_LENGTH
           + as_SerializedSize sample_ops
               (enforced_m (sample_blob\<lparr>key_material_length_m := 18446744073709551615\<rparr>))
           + as_SerializedSize sample_ops
               (unenforced_m (sample_blob\<lparr>key_material_length_m := 18446744073709551615\<rparr>))
   \<and> SerializedSize sample_ops (KeyBlob_of_sets 0 0 0 (Some 32, Some 128) (None, None)) = 47
   \<and> Serialize sample_ops (KeyBlob_of_sets 0 0 0 (Some 32, Some 128) (None, None))
        (replicate 64 0) 0 = Inl OutOfBoundsRead"
  by (simp add: SerializedSize_def Serialize_def and_then_def append_size_and_data_to_buf_def
        read_array_def sample_blob_simps sample_ops_def sample_Serialize_def)


section \<open>Which fields the parse chains touch\<close>

lemma parse_versioned_keeps:
  "parse_versioned ev ops b inp pos = (ok, b', p) \<Longrightarrow>
     error_m b' = error_m b \<and> algorithm_m b' = algorithm_m b \<and> key_size_bits_m b' = key_size_bits_m b"
  by (auto simp: parse_versioned_def Let_def split: option.splits prod.splits if_splits)

lemma versioned_attempt_keeps:
  "versioned_attempt ev ops b inp start = (ok, b', p) \<Longrightarrow>
     error_m b' = error_m b \<and> algorithm_m b' = algorithm_m b \<and> key_size_bits_m b' = key_size_bits_m b"
  by (auto simp: versioned_attempt_def dest: parse_versioned_keeps split: if_splits)

lemma parse_unversioned_keeps:
  "parse_unversioned ev ops b inp pos = (ok, b', p) \<Longrightarrow>
     error_m b' = error_m b \<and> algorithm_m b' = algorithm_m b \<and> key_size_bits_m b' = key_size_bits_m b"
  by (auto simp: parse_unversioned_def Let_def split: option.splits prod.splits if_splits)

lemma Extract_error:
  "ExtractKeyCharacteristics ops b = (r, b') \<Longrightarrow>
     (if r then error_m b' = error_m b
      else error_m b' \<in> {KM_ERROR_UNSUPPORTED_ALGORITHM, KM_ERROR_UNSUPPORTED_KEY_SIZE})"
  by (auto simp: ExtractKeyCharacteristics_def Let_def split: option.splits)

lemma Unversioned_alloc_fail:
  "\<not> alloc_ok ev NONCE_LENGTH \<or> \<not> alloc_ok ev TAG_LENGTH \<Longrightarrow>
     DeserializeUnversionedBlob ev ops b inp pos
       = (False, (fresh_buffers ev b)\<lparr>error_m := KM_ERROR_MEMORY_ALLOCATION_FAILED\<rparr>, pos)"
  by (auto simp: DeserializeUnversionedBlob_def fresh_buffers_def new_array_def)

lemma Unversioned_parse_fail:
  "alloc_ok ev NONCE_LENGTH \<Longrightarrow> alloc_ok ev TAG_LENGTH \<Longrightarrow>
   parse_unversioned ev ops (fresh_buffers ev b) inp pos = (False, b3, p) \<Longrightarrow>
     DeserializeUnversionedBlob ev ops b inp pos
       = (False, b3\<lparr>encrypted_key_material_m := None, error_m := KM_ERROR_INVALID_KEY_BLOB\<rparr>, p)"
  by (simp add: DeserializeUnversionedBlob_def fresh_buffers_def new_array_def)

lemma Unversioned_parse_ok:
  "alloc_ok ev NONCE_LENGTH \<Longrightarrow> alloc_ok ev TAG_LENGTH \<Longrightarrow>
   parse_unversioned ev ops (fresh_buffers ev b) inp pos = (True, b3, p) \<Longrightarrow>
     DeserializeUnversionedBlob ev ops b inp pos
       = (case ExtractKeyCharacteristics ops b3 of (r, b4) \<Rightarrow> (r, b4, p))"
  by (simp add: DeserializeUnversionedBlob_def fresh_buffers_def new_array_def)

lemma fresh_buffers_error: "error_m (fresh_buffers ev b) = error_m b"
  by (simp add: fresh_buffers_def)

lemma Unversioned_error:
  assumes "DeserializeUnversionedBlob ev ops b inp pos = (r, b', p)"
  shows "if r then error_m b' = error_m b
      else error_m b' \<in> {KM_ERROR_MEMORY_ALLOCATION_FAILED, KM_ERROR_INVALID_KEY_BLOB,
                           KM_ERROR_UNSUPPORTED_ALGORITHM, KM_ERROR_UNSUPPORTED_KEY_SIZE}"
proof (cases "alloc_ok ev NONCE_LENGTH \<and> alloc_ok ev TAG_LENGTH")
  case False
  then show ?thesis using assms Unversioned_alloc_fail[of ev ops b inp pos] by auto
next
  case True
  obtain ok b3 q where pu: "parse_unversioned ev ops (fresh_buffers ev b) inp pos = (ok, b3, q)"
    by (cases "parse_unversioned ev ops (fresh_buffers ev b) inp pos") auto
  have e3: "error_m b3 = error_m b"
    using parse_unversioned_keeps[OF pu] by (simp add: fresh_buffers_error)
  show ?thesis
  proof (cases ok)
    case False
    with True pu assms show ?thesis by (auto simp: Unversioned_parse_fail)
  next
    case ok: True
    obtain r4 b4 where ex: "ExtractKeyCharacteristics ops b3 = (r4, b4)"
      by (cases "ExtractKeyCharacteristics ops b3") auto
    with True pu ok assms have "r = r4" "b' = b4" by (auto simp: Unversioned_parse_ok)
    with Extract_error[OF ex] e3 show ?thesis by (auto split: if_splits)
  qed
qed

lemma Deserialize_fallback:
  "start < length inp \<Longrightarrow> versioned_attempt ev ops b inp start = (False, b1, p1) \<Longrightarrow>
     Deserialize ev ops b inp start =
       (case DeserializeUnversionedBlob ev ops b1 inp start of
          (ok2, b2, p2) \<Rightarrow>
            if \<not> ok2 then Inr (False, b2, p2)
            else (case ExtractKeyCharacteristics ops b2 of (r, b3) \<Rightarrow> Inr (r, b3, p2)))"
  by (simp add: Deserialize_def)

lemma Deserialize_canonical:
  "start < length inp \<Longrightarrow> versioned_attempt ev ops b inp start = (True, b1, p1) \<Longrightarrow>
     Deserialize ev ops b inp start =
       (case ExtractKeyCharacteristics ops b1 of (r, b3) \<Rightarrow> Inr (r, b3, p1))"
  by (simp add: Deserialize_def)

lemma Deserialize_outside: "length inp \<le> start \<Longrightarrow> Deserialize ev ops b inp start = Inl OutOfBoundsRead"
  by (simp add: Deserialize_def)

lemma Deserialize_error:
  assumes "Deserialize ev ops b inp start = Inr (r, b', p)"
  shows "if r then error_m b' = error_m b
      else error_m b' \<in> {KM_ERROR_MEMORY_ALLOCATION_FAILED, KM_ERROR_INVALID_KEY_BLOB,
                           KM_ERROR_UNSUPPORTED_ALGORITHM, KM_ERROR_UNSUPPORTED_KEY_SIZE}"
proof -
  have lt: "start < length inp"
    using assms Deserialize_outside[of inp start ev ops b] by (cases "start < length inp") auto
  obtain ok b1 p1 where va: "versioned_attempt ev ops b inp start = (ok, b1, p1)"
    by (cases "versioned_attempt ev ops b inp start") auto
  have e1: "error_m b1 = error_m b" using versioned_attempt_keeps[OF va] by simp
  show ?thesis
  proof (cases ok)
    case True
    obtain r3 b3 where ex: "ExtractKeyCharacteristics ops b1 = (r3, b3)"
      by (cases "ExtractKeyCharacteristics ops b1") auto
    with True va lt assms have "r = r3" "b' = b3" by (auto simp: Deserialize_canonical)
    with Extract_error[OF ex] e1 show ?thesis by (auto split: if_splits)
  next
    case False
    obtain ok2 b2 p2 where du: "DeserializeUnversionedBlob ev ops b1 inp start = (ok2, b2, p2)"
      by (cases "DeserializeUnversionedBlob ev ops b1 inp start") auto
    show ?thesis
    proof (cases ok2)
      case False
      with \<open>\<not> ok\<close> va lt du assms have "r = False" "b' = b2" by (auto simp: Deserialize_fallback)
      with Unversioned_error[OF du] False show ?thesis by auto
    next
      case True
      obtain r3 b3 where ex: "ExtractKeyCharacteristics ops b2 = (r3, b3)"
        by (cases "ExtractKeyCharacteristics ops b2") auto
      with True \<open>\<not> ok\<close> va lt du assms have "r = r3" "b' = b3" by (auto simp: Deserialize_fallback)
      with Extract_error[OF ex] Unversioned_error[OF du] True e1 show ?thesis
        by (auto split: if_splits)
    qed
  qed
qed


lemmas sample_ops_simps = sample_ops_def sample_Serialize_def sample_Deserialize_def sample_read_field_def

lemmas run_simps =
  Deserialize_def versioned_attempt_def parse_versioned_def DeserializeUnversionedBlob_def
  parse_unversioned_def ExtractKeyCharacteristics_def copy_size_and_data_from_buf_def
  copy_from_buf_def new_array_def BLOB_VERSION_def plenty_def exhausted_def blank_def

text \<open>
  C7: \<open>ExtractKeyCharacteristics\<close> looks ALGORITHM up in the enforced set and, only if
  that lookup fails, in the unenforced set; when both fail it returns false with the
  unsupported-algorithm error. Otherwise it does the same for KEY\_SIZE, returning false with
  the unsupported-key-size error when both lookups fail. A blob missing both attributes
  reports unsupported algorithm. When both attributes are found the call returns true, the
  stored algorithm and key size are the enforced values where the enforced set has them and
  the unenforced values otherwise.
\<close>

theorem ExtractKeyCharacteristics_enforced_first:
  "(case ExtractKeyCharacteristics ops b of (r, b') \<Rightarrow>
     (case as_GetTagValue ops (enforced_m b) TAG_ALGORITHM of
        Some a \<Rightarrow> algorithm_m b' = a
      | None \<Rightarrow>
          (case as_GetTagValue ops (unenforced_m b) TAG_ALGORITHM of
             Some a \<Rightarrow> algorithm_m b' = a
           | None \<Rightarrow> \<not> r \<and> error_m b' = KM_ERROR_UNSUPPORTED_ALGORITHM))
     \<and> (as_GetTagValue ops (enforced_m b) TAG_ALGORITHM \<noteq> None
          \<or> as_GetTagValue ops (unenforced_m b) TAG_ALGORITHM \<noteq> None \<longrightarrow>
         (case as_GetTagValue ops (enforced_m b) TAG_KEY_SIZE of
            Some k \<Rightarrow> r \<and> key_size_bits_m b' = k \<and> error_m b' = error_m b
          | None \<Rightarrow>
              (case as_GetTagValue ops (unenforced_m b) TAG_KEY_SIZE of
                 Some k \<Rightarrow> r \<and> key_size_bits_m b' = k \<and> error_m b' = error_m b
               | None \<Rightarrow> \<not> r \<and> error_m b' = KM_ERROR_UNSUPPORTED_KEY_SIZE))))"
  by (auto simp: ExtractKeyCharacteristics_def Let_def split: option.splits)

theorem ExtractKeyCharacteristics_enforced_first_witness:
  "(case ExtractKeyCharacteristics sample_ops
           (KeyBlob_of_sets 0 0 0 (None, Some 128) (Some 32, Some 64)) of
      (r, b') \<Rightarrow> r \<and> algorithm_m b' = 32 \<and> key_size_bits_m b' = 128 \<and> error_m b' = KM_ERROR_OK)
   \<and> (case ExtractKeyCharacteristics sample_ops
           (KeyBlob_of_sets 0 0 0 (None, None) (None, None)) of
      (r, b') \<Rightarrow> \<not> r \<and> error_m b' = KM_ERROR_UNSUPPORTED_ALGORITHM)
   \<and> (case ExtractKeyCharacteristics sample_ops
           (KeyBlob_of_sets 0 0 0 (Some 32, None) (None, None)) of
      (r, b') \<Rightarrow> \<not> r \<and> error_m b' = KM_ERROR_UNSUPPORTED_KEY_SIZE)"
  using ExtractKeyCharacteristics_enforced_first
          [where ops = sample_ops and b = "KeyBlob_of_sets 0 0 0 (None, Some 128) (Some 32, Some 64)"]
        ExtractKeyCharacteristics_enforced_first
          [where ops = sample_ops and b = "KeyBlob_of_sets 0 0 0 (None, None) (None, None)"]
        ExtractKeyCharacteristics_enforced_first
          [where ops = sample_ops and b = "KeyBlob_of_sets 0 0 0 (Some 32, None) (None, None)"]
  by (simp add: sample_ops_def KeyBlob_of_sets_def split: prod.splits)

lemma cut_blob_versioned:
  "versioned_attempt ev sample_ops blank cut_blob 0 =
     (if alloc_ok ev 12 \<and> alloc_ok ev 2
      then (False, blank\<lparr>nonce_m := Some [1, 2, 3, 4, 5, 6, 7, 8, 9, 10, 11, 12],
                           key_material_length_m := 2,
                           encrypted_key_material_m := Some [170, 171]\<rparr>, 23)
      else if alloc_ok ev 12
      then (False, blank\<lparr>nonce_m := Some [1, 2, 3, 4, 5, 6, 7, 8, 9, 10, 11, 12]\<rparr>, 17)
      else (False, blank, 1))"
  by (simp add: versioned_attempt_def parse_versioned_def copy_size_and_data_from_buf_def
        cut_blob_def BLOB_VERSION_def NONCE_LENGTH_def)

lemma cut_blob_unversioned:
  "parse_unversioned ev sample_ops (fresh_buffers ev b) cut_blob 0 =
     (False, (fresh_buffers ev b)\<lparr>nonce_m := Some [0, 12, 0, 0, 0, 1, 2, 3, 4, 5, 6, 7]\<rparr>, 12)"
  by (simp add: parse_unversioned_def copy_from_buf_def copy_size_and_data_from_buf_def
        cut_blob_def NONCE_LENGTH_def)

lemma Extract_outcome:
  assumes "ExtractKeyCharacteristics ops b = (r, b')"
  shows "extraction_result ops b r (error_m b')" and "r \<longrightarrow> error_m b' = error_m b"
    and "nonce_m b' = nonce_m b" and "encrypted_key_material_m b' = encrypted_key_material_m b"
    and "key_material_length_m b' = key_material_length_m b" and "tag_m b' = tag_m b"
    and "enforced_m b' = enforced_m b" and "unenforced_m b' = unenforced_m b"
  using assms
  by (auto simp: ExtractKeyCharacteristics_def extraction_result_def has_tag_def Let_def
           split: option.splits)

lemma Extract_again:
  "ExtractKeyCharacteristics ops b = (True, b') \<Longrightarrow> ExtractKeyCharacteristics ops b' = (True, b')"
  by (auto simp: ExtractKeyCharacteristics_def Let_def split: option.splits)

lemma Unversioned_outcome:
  assumes "DeserializeUnversionedBlob ev ops b inp pos = (r, b', p)"
  shows "legacy_result ev ops b inp pos r (error_m b')"
proof (cases "alloc_ok ev NONCE_LENGTH \<and> alloc_ok ev TAG_LENGTH")
  case False
  then show ?thesis
    using assms Unversioned_alloc_fail[of ev ops b inp pos] by (auto simp: legacy_result_def)
next
  case True
  obtain ok b3 q where pu: "parse_unversioned ev ops (fresh_buffers ev b) inp pos = (ok, b3, q)"
    by (cases "parse_unversioned ev ops (fresh_buffers ev b) inp pos") auto
  show ?thesis
  proof (cases ok)
    case False
    with True pu assms show ?thesis
      by (auto simp: Unversioned_parse_fail legacy_result_def)
  next
    case ok: True
    obtain r4 b4 where ex: "ExtractKeyCharacteristics ops b3 = (r4, b4)"
      by (cases "ExtractKeyCharacteristics ops b3") auto
    with True pu ok assms have "r = r4" "b' = b4" by (auto simp: Unversioned_parse_ok)
    with Extract_outcome(1)[OF ex] True pu ok show ?thesis by (simp add: legacy_result_def)
  qed
qed

lemma Unversioned_true_again:
  assumes "DeserializeUnversionedBlob ev ops b inp pos = (True, b', p)"
  shows "ExtractKeyCharacteristics ops b' = (True, b')"
proof -
  have a: "alloc_ok ev NONCE_LENGTH \<and> alloc_ok ev TAG_LENGTH"
    using assms Unversioned_alloc_fail[of ev ops b inp pos] by auto
  obtain ok b3 q where pu: "parse_unversioned ev ops (fresh_buffers ev b) inp pos = (ok, b3, q)"
    by (cases "parse_unversioned ev ops (fresh_buffers ev b) inp pos") auto
  have ok: ok using assms a pu by (cases ok) (auto simp: Unversioned_parse_fail)
  obtain r4 b4 where ex: "ExtractKeyCharacteristics ops b3 = (r4, b4)"
    by (cases "ExtractKeyCharacteristics ops b3") auto
  with a pu ok assms have "r4 = True" "b4 = b'" by (auto simp: Unversioned_parse_ok)
  with ex show ?thesis by (simp add: Extract_again)
qed

lemma Deserialize_after_fallback:
  assumes "start < length inp" and "versioned_attempt ev ops b inp start = (False, b1, p1)"
    and "DeserializeUnversionedBlob ev ops b1 inp start = (r, b', p)"
  shows "Deserialize ev ops b inp start = Inr (r, b', p)"
proof (cases r)
  case False
  with assms show ?thesis by (simp add: Deserialize_fallback)
next
  case True
  with assms(3) have "ExtractKeyCharacteristics ops b' = (True, b')"
    by (simp add: Unversioned_true_again)
  with assms True show ?thesis by (simp add: Deserialize_fallback)
qed

text \<open>
  C6, amended: a call of \<open>ExtractKeyCharacteristics\<close>,
  \<open>DeserializeUnversionedBlob\<close> or \<open>Deserialize\<close> that returns false has overwritten
  the error field with the reason of the step that failed: allocation failure when the
  legacy nonce or tag allocation fails, invalid blob when the legacy read chain fails,
  unsupported algorithm when ALGORITHM is in neither policy set, unsupported key size when
  ALGORITHM is found and KEY\_SIZE is in neither set. A call that returns true leaves the
  error field as it was before the call, so it holds the OK value after a successful call
  exactly when it held the OK value before. This holds for every starting state of the
  object; \<open>Deserialize\<close> is taken on a non-empty range.
\<close>

theorem failure_sets_its_reason_success_keeps_error:
  "(case ExtractKeyCharacteristics ops b of (r, b') \<Rightarrow>
      extraction_result ops b r (error_m b') \<and> (r \<longrightarrow> error_m b' = error_m b))
   \<and> (case DeserializeUnversionedBlob ev ops b inp pos of (r, b', p) \<Rightarrow>
      legacy_result ev ops b inp pos r (error_m b') \<and> (r \<longrightarrow> error_m b' = error_m b))
   \<and> (start < length inp \<longrightarrow>
       (case Deserialize ev ops b inp start of
          Inl f \<Rightarrow> False
        | Inr (r, b', p) \<Rightarrow>
            (fst (versioned_attempt ev ops b inp start) \<longrightarrow>
               extraction_result ops (fst (snd (versioned_attempt ev ops b inp start)))
                 r (error_m b'))
          \<and> (\<not> fst (versioned_attempt ev ops b inp start) \<longrightarrow>
               legacy_result ev ops (fst (snd (versioned_attempt ev ops b inp start))) inp start
                 r (error_m b'))
          \<and> (r \<longrightarrow> error_m b' = error_m b)))"
proof (intro conjI impI)
  show "case ExtractKeyCharacteristics ops b of (r, b') \<Rightarrow>
      extraction_result ops b r (error_m b') \<and> (r \<longrightarrow> error_m b' = error_m b)"
    using Extract_outcome(1,2)[of ops b]
    by (cases "ExtractKeyCharacteristics ops b") simp
  show "case DeserializeUnversionedBlob ev ops b inp pos of (r, b', p) \<Rightarrow>
      legacy_result ev ops b inp pos r (error_m b') \<and> (r \<longrightarrow> error_m b' = error_m b)"
    using Unversioned_outcome[of ev ops b inp pos] Unversioned_error[of ev ops b inp pos]
    by (cases "DeserializeUnversionedBlob ev ops b inp pos") (auto split: if_splits)
next
  assume lt: "start < length inp"
  obtain ok b1 p1 where va: "versioned_attempt ev ops b inp start = (ok, b1, p1)"
    by (cases "versioned_attempt ev ops b inp start") auto
  show "case Deserialize ev ops b inp start of
          Inl f \<Rightarrow> False
        | Inr (r, b', p) \<Rightarrow>
            (fst (versioned_attempt ev ops b inp start) \<longrightarrow>
               extraction_result ops (fst (snd (versioned_attempt ev ops b inp start)))
                 r (error_m b'))
          \<and> (\<not> fst (versioned_attempt ev ops b inp start) \<longrightarrow>
               legacy_result ev ops (fst (snd (versioned_attempt ev ops b inp start))) inp start
                 r (error_m b'))
          \<and> (r \<longrightarrow> error_m b' = error_m b)"
  proof (cases ok)
    case True
    obtain r3 b3 where ex: "ExtractKeyCharacteristics ops b1 = (r3, b3)"
      by (cases "ExtractKeyCharacteristics ops b1") auto
    have d: "Deserialize ev ops b inp start = Inr (r3, b3, p1)"
      using True va lt ex by (simp add: Deserialize_canonical)
    have "error_m b1 = error_m b" using versioned_attempt_keeps[OF va] by simp
    with Extract_outcome(1,2)[OF ex] show ?thesis
      unfolding va d fst_conv snd_conv using True by simp
  next
    case False
    obtain r2 b2 p2 where du: "DeserializeUnversionedBlob ev ops b1 inp start = (r2, b2, p2)"
      by (cases "DeserializeUnversionedBlob ev ops b1 inp start") auto
    have d: "Deserialize ev ops b inp start = Inr (r2, b2, p2)"
      using Deserialize_after_fallback[OF lt _ du] va False by simp
    have "error_m b1 = error_m b" using versioned_attempt_keeps[OF va] by simp
    with Unversioned_outcome[OF du] Unversioned_error[OF du] show ?thesis
      unfolding va d fst_conv snd_conv using False by (auto split: if_splits)
  qed
qed

theorem failure_sets_its_reason_success_keeps_error_witness:
  "(case ExtractKeyCharacteristics sample_ops blank of (r, b') \<Rightarrow>
      \<not> r \<and> error_m b' = KM_ERROR_UNSUPPORTED_ALGORITHM)
   \<and> (case DeserializeUnversionedBlob plenty sample_ops blank cut_blob 0 of (r, b', p) \<Rightarrow>
      \<not> r \<and> error_m b' = KM_ERROR_INVALID_KEY_BLOB)
   \<and> (case Deserialize exhausted sample_ops blank cut_blob 0 of
        Inl f \<Rightarrow> False
      | Inr (r, b', p) \<Rightarrow> \<not> r \<and> error_m b' = KM_ERROR_MEMORY_ALLOCATION_FAILED)"
proof -
  note T1 = failure_sets_its_reason_success_keeps_error
            [where ops = sample_ops and b = blank and ev = plenty and inp = cut_blob
               and pos = 0 and start = 0]
  note T2 = failure_sets_its_reason_success_keeps_error
            [where ops = sample_ops and b = blank and ev = exhausted and inp = cut_blob
               and pos = 0 and start = 0]
  have ne: "0 < length cut_blob" by (simp add: cut_blob_def)
  have no: "\<not> alloc_ok exhausted n" for n by (simp add: exhausted_def)
  have ok: "alloc_ok plenty n" for n by (simp add: plenty_def)
  have t: "\<not> has_tag sample_ops blank TAG_ALGORITHM"
    by (simp add: has_tag_def sample_ops_def blank_def KeyBlob_of_sets_def)
  have v: "\<not> fst (versioned_attempt exhausted sample_ops blank cut_blob 0)"
    by (simp add: cut_blob_versioned no)
  have c1: "case ExtractKeyCharacteristics sample_ops blank of (r, b') \<Rightarrow>
      \<not> r \<and> error_m b' = KM_ERROR_UNSUPPORTED_ALGORITHM"
    using T1[THEN conjunct1] t by (auto simp: extraction_result_def split: prod.splits)
  have c2: "case DeserializeUnversionedBlob plenty sample_ops blank cut_blob 0 of (r, b', p) \<Rightarrow>
      \<not> r \<and> error_m b' = KM_ERROR_INVALID_KEY_BLOB"
    using T1[THEN conjunct2, THEN conjunct1]
    by (auto simp: legacy_result_def ok cut_blob_unversioned split: prod.splits)
  have c3: "case Deserialize exhausted sample_ops blank cut_blob 0 of
        Inl f \<Rightarrow> False
      | Inr (r, b', p) \<Rightarrow> \<not> r \<and> error_m b' = KM_ERROR_MEMORY_ALLOCATION_FAILED"
    using T2[THEN conjunct2, THEN conjunct2, rule_format, OF ne] v
    by (auto simp: legacy_result_def no split: sum.splits prod.splits)
  from c1 c2 c3 show ?thesis by blast
qed

text \<open>
  C6 as stated fails: an object whose error field holds an earlier failure and whose enforced
  set has both attributes passes \<open>ExtractKeyCharacteristics\<close>, and the error field still
  holds the earlier failure.
\<close>

theorem success_leaves_stale_error_counterexample:
  "fst (ExtractKeyCharacteristics sample_ops (sample_blob\<lparr>error_m := KM_ERROR_INVALID_KEY_BLOB\<rparr>))
   \<and> error_m (snd (ExtractKeyCharacteristics sample_ops
                     (sample_blob\<lparr>error_m := KM_ERROR_INVALID_KEY_BLOB\<rparr>)))
       = KM_ERROR_INVALID_KEY_BLOB"
  by (simp add: ExtractKeyCharacteristics_def sample_ops_def sample_blob_def SetEncryptedKey_def
        KeyBlob_of_sets_def)

text \<open>
  C10: with the cursor at \<open>end\<close> (a zero-length range) \<open>Deserialize\<close> reads the
  version byte outside the range: the read is not guarded by a comparison with \<open>end\<close>.
\<close>

theorem Deserialize_empty_range_reads_outside:
  "Deserialize plenty sample_ops blank [] 0 = Inl OutOfBoundsRead"
  by (simp add: Deserialize_def)

text \<open>
  C3: on a buffer of capacity zero \<open>Serialize\<close> stores the version byte at \<open>end\<close>:
  the store is not guarded by a comparison with \<open>end\<close>.
\<close>

theorem Serialize_zero_capacity_writes_outside:
  "Serialize sample_ops sample_blob [] 0 = Inl OutOfBoundsWrite"
  by (simp add: Serialize_def)


lemma versioned_attempt_wrong_version:
  "inp ! start \<noteq> BLOB_VERSION \<Longrightarrow> versioned_attempt ev ops b inp start = (False, b, start + 1)"
  by (simp add: versioned_attempt_def)

lemma versioned_attempt_wrong_nonce_length:
  "decode_uint32 (take 4 (drop (start + 1) inp)) \<noteq> NONCE_LENGTH \<Longrightarrow>
     \<not> fst (versioned_attempt ev ops b inp start)"
  by (auto simp: versioned_attempt_def parse_versioned_def copy_size_and_data_from_buf_def Let_def
           split: option.splits if_splits)

lemma versioned_attempt_layout:
  assumes "inp ! start = BLOB_VERSION"
    and "copy_size_and_data_from_buf ev inp (start + 1) = Some (NONCE_LENGTH, nb, p1)"
    and "copy_size_and_data_from_buf ev inp p1 = Some (kl, kb, p2)"
    and "copy_size_and_data_from_buf ev inp p2 = Some (TAG_LENGTH, tb, p3)"
    and "as_Deserialize ops (enforced_m b) inp p3 = (True, e, p4)"
    and "as_Deserialize ops (unenforced_m b) inp p4 = (True, u, p5)"
  shows "versioned_attempt ev ops b inp start =
           (True, b\<lparr>nonce_m := nb, key_material_length_m := kl, encrypted_key_material_m := kb,
                     tag_m := tb, enforced_m := e, unenforced_m := u\<rparr>, p5)"
  using assms by (simp add: versioned_attempt_def parse_versioned_def)

text \<open>
  C1: on a non-empty range \<open>Deserialize\<close> runs the canonical attempt first. When it
  succeeds the result is that of \<open>ExtractKeyCharacteristics\<close> on the object the
  canonical attempt filled, with the cursor where that attempt stopped; the legacy parser
  plays no part. When it fails, for whatever reason, the result is that of
  \<open>DeserializeUnversionedBlob\<close> called with the cursor back at the start. A first byte
  other than 0, or a nonce-length field that does not decode to NONCE\_LENGTH, makes the
  canonical attempt fail; a first byte 0, a nonce prefix decoding to NONCE\_LENGTH, a
  ciphertext read, a tag prefix decoding to TAG\_LENGTH and two policy sets that parse make
  it succeed.
\<close>

theorem Deserialize_canonical_first:
  assumes "start < length inp"
  shows
    "(fst (versioned_attempt ev ops b inp start) \<longrightarrow>
        Deserialize ev ops b inp start =
          (case versioned_attempt ev ops b inp start of (ok, b1, p1) \<Rightarrow>
             case ExtractKeyCharacteristics ops b1 of (r, b3) \<Rightarrow> Inr (r, b3, p1)))
     \<and> (\<not> fst (versioned_attempt ev ops b inp start) \<longrightarrow>
        Deserialize ev ops b inp start =
          (case versioned_attempt ev ops b inp start of (ok, b1, p1) \<Rightarrow>
             case DeserializeUnversionedBlob ev ops b1 inp start of (ok2, b2, p2) \<Rightarrow>
               if \<not> ok2 then Inr (False, b2, p2)
               else (case ExtractKeyCharacteristics ops b2 of (r, b3) \<Rightarrow> Inr (r, b3, p2))))
     \<and> (inp ! start \<noteq> 0 \<longrightarrow> \<not> fst (versioned_attempt ev ops b inp start))
     \<and> (decode_uint32 (take 4 (drop (start + 1) inp)) \<noteq> NONCE_LENGTH \<longrightarrow>
          \<not> fst (versioned_attempt ev ops b inp start))
     \<and> (inp ! start = 0
          \<and> copy_size_and_data_from_buf ev inp (start + 1) = Some (NONCE_LENGTH, nb, p1)
          \<and> copy_size_and_data_from_buf ev inp p1 = Some (kl, kb, p2)
          \<and> copy_size_and_data_from_buf ev inp p2 = Some (TAG_LENGTH, tb, p3)
          \<and> as_Deserialize ops (enforced_m b) inp p3 = (True, e, p4)
          \<and> as_Deserialize ops (unenforced_m b) inp p4 = (True, u, p5) \<longrightarrow>
        Deserialize ev ops b inp start =
          (case ExtractKeyCharacteristics ops
                  (b\<lparr>nonce_m := nb, key_material_length_m := kl,
                      encrypted_key_material_m := kb, tag_m := tb,
                      enforced_m := e, unenforced_m := u\<rparr>) of
             (r, b3) \<Rightarrow> Inr (r, b3, p5)))"
proof (intro conjI impI)
  assume "fst (versioned_attempt ev ops b inp start)"
  then show "Deserialize ev ops b inp start =
          (case versioned_attempt ev ops b inp start of (ok, b1, p1) \<Rightarrow>
             case ExtractKeyCharacteristics ops b1 of (r, b3) \<Rightarrow> Inr (r, b3, p1))"
    using assms by (cases "versioned_attempt ev ops b inp start") (simp add: Deserialize_canonical)
next
  assume "\<not> fst (versioned_attempt ev ops b inp start)"
  then show "Deserialize ev ops b inp start =
          (case versioned_attempt ev ops b inp start of (ok, b1, p1) \<Rightarrow>
             case DeserializeUnversionedBlob ev ops b1 inp start of (ok2, b2, p2) \<Rightarrow>
               if \<not> ok2 then Inr (False, b2, p2)
               else (case ExtractKeyCharacteristics ops b2 of (r, b3) \<Rightarrow> Inr (r, b3, p2)))"
    using assms by (cases "versioned_attempt ev ops b inp start") (simp add: Deserialize_fallback)
next
  assume "inp ! start \<noteq> 0"
  then show "\<not> fst (versioned_attempt ev ops b inp start)"
    by (simp add: versioned_attempt_wrong_version BLOB_VERSION_def)
next
  assume "decode_uint32 (take 4 (drop (start + 1) inp)) \<noteq> NONCE_LENGTH"
  then show "\<not> fst (versioned_attempt ev ops b inp start)"
    by (rule versioned_attempt_wrong_nonce_length)
next
  assume h: "inp ! start = 0
          \<and> copy_size_and_data_from_buf ev inp (start + 1) = Some (NONCE_LENGTH, nb, p1)
          \<and> copy_size_and_data_from_buf ev inp p1 = Some (kl, kb, p2)
          \<and> copy_size_and_data_from_buf ev inp p2 = Some (TAG_LENGTH, tb, p3)
          \<and> as_Deserialize ops (enforced_m b) inp p3 = (True, e, p4)
          \<and> as_Deserialize ops (unenforced_m b) inp p4 = (True, u, p5)"
  then have "versioned_attempt ev ops b inp start =
           (True, b\<lparr>nonce_m := nb, key_material_length_m := kl, encrypted_key_material_m := kb,
                     tag_m := tb, enforced_m := e, unenforced_m := u\<rparr>, p5)"
    using versioned_attempt_layout[of inp start ev nb p1 kl kb p2 tb p3 ops b e p4 u p5]
    by (simp add: BLOB_VERSION_def)
  then show "Deserialize ev ops b inp start =
          (case ExtractKeyCharacteristics ops
                  (b\<lparr>nonce_m := nb, key_material_length_m := kl,
                      encrypted_key_material_m := kb, tag_m := tb,
                      enforced_m := e, unenforced_m := u\<rparr>) of
             (r, b3) \<Rightarrow> Inr (r, b3, p5))"
    using assms by (simp add: Deserialize_canonical)
qed


lemma canonical_sample_parse:
  "versioned_attempt plenty sample_ops blank
     ([0] @ (encode_uint32 12 @ replicate 12 5) @ (encode_uint32 2 @ [170, 171])
        @ (encode_uint32 16 @ replicate 16 6) @ [1, 32, 1, 128] @ [0, 0]) 0
   = (True, blank\<lparr>nonce_m := Some (replicate 12 5), key_material_length_m := 2,
                    encrypted_key_material_m := Some [170, 171], tag_m := Some (replicate 16 6),
                    enforced_m := (Some 32, Some 128), unenforced_m := (None, None)\<rparr>, 49)"
  by (simp add: versioned_attempt_def parse_versioned_def copy_size_and_data_from_buf_def
        encode_uint32_def BLOB_VERSION_def plenty_def NONCE_LENGTH_def TAG_LENGTH_def
        sample_ops_simps blank_def KeyBlob_of_sets_def)

theorem Deserialize_canonical_first_witness:
  "Deserialize plenty sample_ops blank
     ([0] @ (encode_uint32 12 @ replicate 12 5) @ (encode_uint32 2 @ [170, 171])
        @ (encode_uint32 16 @ replicate 16 6) @ [1, 32, 1, 128] @ [0, 0]) 0
    = Inr (True,
           blank\<lparr>nonce_m := Some (replicate 12 5), key_material_length_m := 2,
                  encrypted_key_material_m := Some [170, 171], tag_m := Some (replicate 16 6),
                  enforced_m := (Some 32, Some 128), unenforced_m := (None, None),
                  algorithm_m := 32, key_size_bits_m := 128\<rparr>, 49)
   \<and> Deserialize plenty sample_ops blank [1, 2, 3] 0
    = Inr (False,
           blank\<lparr>nonce_m := Some (replicate 12 0), tag_m := Some (replicate 16 0),
                  encrypted_key_material_m := None, error_m := KM_ERROR_INVALID_KEY_BLOB\<rparr>, 0)"
proof -
  let ?inp = "[0] @ (encode_uint32 12 @ replicate 12 5) @ (encode_uint32 2 @ [170, 171])
        @ (encode_uint32 16 @ replicate 16 6) @ [1, 32, 1, 128] @ [0, 0]"
  have l1: "0 < length ?inp" by simp
  have l2: "0 < length [1, 2, 3 :: byte]" by simp
  have va2: "versioned_attempt plenty sample_ops blank [1, 2, 3] 0 = (False, blank, 1)"
    by (simp add: versioned_attempt_def BLOB_VERSION_def)
  have du: "DeserializeUnversionedBlob plenty sample_ops blank [1, 2, 3] 0
    = (False, blank\<lparr>nonce_m := Some (replicate 12 0), tag_m := Some (replicate 16 0),
                  encrypted_key_material_m := None, error_m := KM_ERROR_INVALID_KEY_BLOB\<rparr>, 0)"
    by (simp add: DeserializeUnversionedBlob_def parse_unversioned_def copy_from_buf_def
          new_array_def plenty_def NONCE_LENGTH_def TAG_LENGTH_def map_replicate_const)
  have ex: "ExtractKeyCharacteristics sample_ops
       (blank\<lparr>nonce_m := Some (replicate 12 5), key_material_length_m := 2,
                    encrypted_key_material_m := Some [170, 171], tag_m := Some (replicate 16 6),
                    enforced_m := (Some 32, Some 128), unenforced_m := (None, None)\<rparr>)
      = (True, blank\<lparr>nonce_m := Some (replicate 12 5), key_material_length_m := 2,
                  encrypted_key_material_m := Some [170, 171], tag_m := Some (replicate 16 6),
                  enforced_m := (Some 32, Some 128), unenforced_m := (None, None),
                  algorithm_m := 32, key_size_bits_m := 128\<rparr>)"
    by (simp add: ExtractKeyCharacteristics_def sample_ops_def)
  show ?thesis
    using Deserialize_canonical_first[OF l1, where ev = plenty and ops = sample_ops and b = blank]
          Deserialize_canonical_first[OF l2, where ev = plenty and ops = sample_ops and b = blank]
    by (simp only: canonical_sample_parse va2 du ex fst_conv simp_thms prod.case if_True if_False)
qed


text \<open>
  C8: when its two allocations succeed and the legacy parse fails,
  \<open>DeserializeUnversionedBlob\<close> returns false with the ciphertext buffer released and
  the error set to invalid blob. When the canonical attempt of \<open>Deserialize\<close> has failed
  and the legacy attempt fails too, \<open>Deserialize\<close> returns false with the legacy
  attempt's reason: allocation failure when the nonce or tag allocation failed, invalid blob
  (and no ciphertext buffer) when the legacy parse failed.
\<close>

theorem legacy_failure_reason:
  "(alloc_ok ev NONCE_LENGTH \<and> alloc_ok ev TAG_LENGTH
      \<and> \<not> fst (parse_unversioned ev ops (fresh_buffers ev b) inp pos) \<longrightarrow>
      (case DeserializeUnversionedBlob ev ops b inp pos of (r, b', p) \<Rightarrow>
         \<not> r \<and> encrypted_key_material_m b' = None \<and> error_m b' = KM_ERROR_INVALID_KEY_BLOB))
   \<and> (start < length inp \<and> \<not> fst (versioned_attempt ev ops b inp start) \<longrightarrow>
      (case versioned_attempt ev ops b inp start of (ok, b1, p1) \<Rightarrow>
         (\<not> alloc_ok ev NONCE_LENGTH \<or> \<not> alloc_ok ev TAG_LENGTH \<longrightarrow>
            (case Deserialize ev ops b inp start of
               Inl f \<Rightarrow> False
             | Inr (r, b', p) \<Rightarrow> \<not> r \<and> error_m b' = KM_ERROR_MEMORY_ALLOCATION_FAILED))
         \<and> (alloc_ok ev NONCE_LENGTH \<and> alloc_ok ev TAG_LENGTH
              \<and> \<not> fst (parse_unversioned ev ops (fresh_buffers ev b1) inp start) \<longrightarrow>
            (case Deserialize ev ops b inp start of
               Inl f \<Rightarrow> False
             | Inr (r, b', p) \<Rightarrow>
                 \<not> r \<and> encrypted_key_material_m b' = None
                   \<and> error_m b' = KM_ERROR_INVALID_KEY_BLOB))))"
proof (intro conjI impI)
  assume h: "alloc_ok ev NONCE_LENGTH \<and> alloc_ok ev TAG_LENGTH
      \<and> \<not> fst (parse_unversioned ev ops (fresh_buffers ev b) inp pos)"
  obtain b3 p where "parse_unversioned ev ops (fresh_buffers ev b) inp pos = (False, b3, p)"
    using h by (cases "parse_unversioned ev ops (fresh_buffers ev b) inp pos") auto
  with h show "case DeserializeUnversionedBlob ev ops b inp pos of (r, b', p) \<Rightarrow>
         \<not> r \<and> encrypted_key_material_m b' = None \<and> error_m b' = KM_ERROR_INVALID_KEY_BLOB"
    by (simp add: Unversioned_parse_fail)
next
  assume h: "start < length inp \<and> \<not> fst (versioned_attempt ev ops b inp start)"
  obtain b1 p1 where va: "versioned_attempt ev ops b inp start = (False, b1, p1)"
    using h by (cases "versioned_attempt ev ops b inp start") auto
  have d: "Deserialize ev ops b inp start =
       (case DeserializeUnversionedBlob ev ops b1 inp start of
          (ok2, b2, p2) \<Rightarrow>
            if \<not> ok2 then Inr (False, b2, p2)
            else (case ExtractKeyCharacteristics ops b2 of (r, b3) \<Rightarrow> Inr (r, b3, p2)))"
    using h va by (simp add: Deserialize_fallback)
  have m: "\<not> alloc_ok ev NONCE_LENGTH \<or> \<not> alloc_ok ev TAG_LENGTH \<Longrightarrow>
            (case Deserialize ev ops b inp start of
               Inl f \<Rightarrow> False
             | Inr (r, b', p) \<Rightarrow> \<not> r \<and> error_m b' = KM_ERROR_MEMORY_ALLOCATION_FAILED)"
    by (simp add: d Unversioned_alloc_fail)
  have i: "alloc_ok ev NONCE_LENGTH \<and> alloc_ok ev TAG_LENGTH
              \<and> \<not> fst (parse_unversioned ev ops (fresh_buffers ev b1) inp start) \<Longrightarrow>
            (case Deserialize ev ops b inp start of
               Inl f \<Rightarrow> False
             | Inr (r, b', p) \<Rightarrow>
                 \<not> r \<and> encrypted_key_material_m b' = None
                   \<and> error_m b' = KM_ERROR_INVALID_KEY_BLOB)"
  proof -
    assume a: "alloc_ok ev NONCE_LENGTH \<and> alloc_ok ev TAG_LENGTH
              \<and> \<not> fst (parse_unversioned ev ops (fresh_buffers ev b1) inp start)"
    obtain b3 p where "parse_unversioned ev ops (fresh_buffers ev b1) inp start = (False, b3, p)"
      using a by (cases "parse_unversioned ev ops (fresh_buffers ev b1) inp start") auto
    with a show ?thesis by (simp add: d Unversioned_parse_fail)
  qed
  show "case versioned_attempt ev ops b inp start of (ok, b1, p1) \<Rightarrow>
         (\<not> alloc_ok ev NONCE_LENGTH \<or> \<not> alloc_ok ev TAG_LENGTH \<longrightarrow>
            (case Deserialize ev ops b inp start of
               Inl f \<Rightarrow> False
             | Inr (r, b', p) \<Rightarrow> \<not> r \<and> error_m b' = KM_ERROR_MEMORY_ALLOCATION_FAILED))
         \<and> (alloc_ok ev NONCE_LENGTH \<and> alloc_ok ev TAG_LENGTH
              \<and> \<not> fst (parse_unversioned ev ops (fresh_buffers ev b1) inp start) \<longrightarrow>
            (case Deserialize ev ops b inp start of
               Inl f \<Rightarrow> False
             | Inr (r, b', p) \<Rightarrow>
                 \<not> r \<and> encrypted_key_material_m b' = None
                   \<and> error_m b' = KM_ERROR_INVALID_KEY_BLOB))"
    unfolding va prod.case using m i by blast
qed

theorem legacy_failure_reason_witness:
  "(case DeserializeUnversionedBlob plenty sample_ops sample_blob cut_blob 0 of (r, b', p) \<Rightarrow>
         \<not> r \<and> encrypted_key_material_m b' = None \<and> error_m b' = KM_ERROR_INVALID_KEY_BLOB)
   \<and> (case Deserialize exhausted sample_ops blank cut_blob 0 of
               Inl f \<Rightarrow> False
             | Inr (r, b', p) \<Rightarrow> \<not> r \<and> error_m b' = KM_ERROR_MEMORY_ALLOCATION_FAILED)
   \<and> (case Deserialize plenty sample_ops blank cut_blob 0 of
               Inl f \<Rightarrow> False
             | Inr (r, b', p) \<Rightarrow>
                 \<not> r \<and> encrypted_key_material_m b' = None
                   \<and> error_m b' = KM_ERROR_INVALID_KEY_BLOB)"
proof -
  have len: "cut_blob \<noteq> []" by (simp add: cut_blob_def)
  have ok: "alloc_ok plenty n" for n by (simp add: plenty_def)
  have no: "\<not> alloc_ok exhausted n" for n by (simp add: exhausted_def)
  show ?thesis
    using legacy_failure_reason[where ev = plenty and ops = sample_ops and b = sample_blob
            and inp = cut_blob and pos = 0 and start = 0]
          legacy_failure_reason[where ev = exhausted and ops = sample_ops and b = blank
            and inp = cut_blob and pos = 0 and start = 0]
          legacy_failure_reason[where ev = plenty and ops = sample_ops and b = blank
            and inp = cut_blob and pos = 0 and start = 0]
    by (simp add: len ok no cut_blob_versioned cut_blob_unversioned)
qed


text \<open>
  C5, amended: a canonical attempt that fails does not undo what it has written. It stores
  the nonce, the ciphertext with its length, the tag and the enforced set in the object as
  soon as each is read, and on failure only the cursor goes back to the start: the legacy
  attempt runs on the object as the canonical attempt left it. The failed attempt leaves the
  error, algorithm and key-size fields alone, and an attempt that stops at the version byte
  or at the nonce read leaves the whole object alone.
\<close>

theorem failed_canonical_attempt_keeps_its_writes:
  "start < length inp \<and> \<not> fst (versioned_attempt ev ops b inp start) \<longrightarrow>
     (case versioned_attempt ev ops b inp start of (ok, b1, p1) \<Rightarrow>
        Deserialize ev ops b inp start =
          (case DeserializeUnversionedBlob ev ops b1 inp start of (ok2, b2, p2) \<Rightarrow>
             if \<not> ok2 then Inr (False, b2, p2)
             else (case ExtractKeyCharacteristics ops b2 of (r, b3) \<Rightarrow> Inr (r, b3, p2)))
        \<and> error_m b1 = error_m b \<and> algorithm_m b1 = algorithm_m b
        \<and> key_size_bits_m b1 = key_size_bits_m b
        \<and> (inp ! start \<noteq> 0 \<longrightarrow> b1 = b)
        \<and> (inp ! start = 0 \<longrightarrow>
            (case copy_size_and_data_from_buf ev inp (start + 1) of
               None \<Rightarrow> b1 = b
             | Some (n, nb, q1) \<Rightarrow>
                 nonce_m b1 = nb \<and>
                 (n = NONCE_LENGTH \<longrightarrow>
                   (case copy_size_and_data_from_buf ev inp q1 of
                      None \<Rightarrow> True
                    | Some (kl, kb, q2) \<Rightarrow>
                        key_material_length_m b1 = kl \<and> encrypted_key_material_m b1 = kb \<and>
                        (case copy_size_and_data_from_buf ev inp q2 of
                           None \<Rightarrow> True
                         | Some (tgl, tb, q3) \<Rightarrow>
                             tag_m b1 = tb \<and>
                             (tgl = TAG_LENGTH \<longrightarrow>
                                enforced_m b1 = fst (snd (as_Deserialize ops (enforced_m b) inp q3)))))))))"
proof (intro impI)
  assume h: "start < length inp \<and> \<not> fst (versioned_attempt ev ops b inp start)"
  obtain b1 p1 where va: "versioned_attempt ev ops b inp start = (False, b1, p1)"
    using h by (cases "versioned_attempt ev ops b inp start") auto
  have d: "Deserialize ev ops b inp start =
          (case DeserializeUnversionedBlob ev ops b1 inp start of (ok2, b2, p2) \<Rightarrow>
             if \<not> ok2 then Inr (False, b2, p2)
             else (case ExtractKeyCharacteristics ops b2 of (r, b3) \<Rightarrow> Inr (r, b3, p2)))"
    using h va by (simp add: Deserialize_fallback)
  have k: "error_m b1 = error_m b \<and> algorithm_m b1 = algorithm_m b
        \<and> key_size_bits_m b1 = key_size_bits_m b"
    using versioned_attempt_keeps[OF va] .
  have w: "inp ! start \<noteq> 0 \<longrightarrow> b1 = b"
    using va by (auto simp: versioned_attempt_def BLOB_VERSION_def)
  have f: "inp ! start = 0 \<longrightarrow>
            (case copy_size_and_data_from_buf ev inp (start + 1) of
               None \<Rightarrow> b1 = b
             | Some (n, nb, q1) \<Rightarrow>
                 nonce_m b1 = nb \<and>
                 (n = NONCE_LENGTH \<longrightarrow>
                   (case copy_size_and_data_from_buf ev inp q1 of
                      None \<Rightarrow> True
                    | Some (kl, kb, q2) \<Rightarrow>
                        key_material_length_m b1 = kl \<and> encrypted_key_material_m b1 = kb \<and>
                        (case copy_size_and_data_from_buf ev inp q2 of
                           None \<Rightarrow> True
                         | Some (tgl, tb, q3) \<Rightarrow>
                             tag_m b1 = tb \<and>
                             (tgl = TAG_LENGTH \<longrightarrow>
                                enforced_m b1 = fst (snd (as_Deserialize ops (enforced_m b) inp q3)))))))"
    using va
    by (auto simp: versioned_attempt_def parse_versioned_def BLOB_VERSION_def Let_def
             split: option.splits prod.splits if_splits)
  show "case versioned_attempt ev ops b inp start of (ok, b1, p1) \<Rightarrow>
        Deserialize ev ops b inp start =
          (case DeserializeUnversionedBlob ev ops b1 inp start of (ok2, b2, p2) \<Rightarrow>
             if \<not> ok2 then Inr (False, b2, p2)
             else (case ExtractKeyCharacteristics ops b2 of (r, b3) \<Rightarrow> Inr (r, b3, p2)))
        \<and> error_m b1 = error_m b \<and> algorithm_m b1 = algorithm_m b
        \<and> key_size_bits_m b1 = key_size_bits_m b
        \<and> (inp ! start \<noteq> 0 \<longrightarrow> b1 = b)
        \<and> (inp ! start = 0 \<longrightarrow>
            (case copy_size_and_data_from_buf ev inp (start + 1) of
               None \<Rightarrow> b1 = b
             | Some (n, nb, q1) \<Rightarrow>
                 nonce_m b1 = nb \<and>
                 (n = NONCE_LENGTH \<longrightarrow>
                   (case copy_size_and_data_from_buf ev inp q1 of
                      None \<Rightarrow> True
                    | Some (kl, kb, q2) \<Rightarrow>
                        key_material_length_m b1 = kl \<and> encrypted_key_material_m b1 = kb \<and>
                        (case copy_size_and_data_from_buf ev inp q2 of
                           None \<Rightarrow> True
                         | Some (tgl, tb, q3) \<Rightarrow>
                             tag_m b1 = tb \<and>
                             (tgl = TAG_LENGTH \<longrightarrow>
                                enforced_m b1 = fst (snd (as_Deserialize ops (enforced_m b) inp q3))))))))"
    unfolding va prod.case using d k w f by blast
qed

lemma cut_blob_late_versioned:
  "versioned_attempt plenty sample_ops blank cut_blob_late 0 =
     (False, blank\<lparr>nonce_m := Some [1, 2, 3, 4, 5, 6, 7, 8, 9, 10, 11, 12],
                     key_material_length_m := 0, encrypted_key_material_m := Some [],
                     tag_m := Some [1, 2, 3, 4, 5, 6, 7, 8, 9, 10, 11, 12, 13, 14, 15, 16],
                     enforced_m := (Some 32, Some 128)\<rparr>, 45)"
  by (simp add: versioned_attempt_def parse_versioned_def copy_size_and_data_from_buf_def
        cut_blob_late_def BLOB_VERSION_def NONCE_LENGTH_def TAG_LENGTH_def plenty_def
        sample_ops_simps blank_def KeyBlob_of_sets_def)

lemma cut_blob_late_unversioned:
  "DeserializeUnversionedBlob plenty sample_ops b cut_blob_late 0 =
     (False, b\<lparr>nonce_m := Some [0, 12, 0, 0, 0, 1, 2, 3, 4, 5, 6, 7],
                 tag_m := Some (replicate 16 0), encrypted_key_material_m := None,
                 error_m := KM_ERROR_INVALID_KEY_BLOB\<rparr>, 12)"
  by (simp add: DeserializeUnversionedBlob_def parse_unversioned_def copy_from_buf_def
        copy_size_and_data_from_buf_def new_array_def map_replicate_const
        cut_blob_late_def NONCE_LENGTH_def TAG_LENGTH_def plenty_def)

theorem failed_canonical_attempt_keeps_its_writes_witness:
  "Deserialize plenty sample_ops blank cut_blob_late 0 =
     Inr (False, blank\<lparr>key_material_length_m := 0, enforced_m := (Some 32, Some 128),
                         nonce_m := Some [0, 12, 0, 0, 0, 1, 2, 3, 4, 5, 6, 7],
                         tag_m := Some (replicate 16 0), encrypted_key_material_m := None,
                         error_m := KM_ERROR_INVALID_KEY_BLOB\<rparr>, 12)"
proof -
  have ne: "cut_blob_late \<noteq> []" by (simp add: cut_blob_late_def)
  show ?thesis
    using failed_canonical_attempt_keeps_its_writes
            [where ev = plenty and ops = sample_ops and b = blank and inp = cut_blob_late
               and start = 0]
    by (simp add: ne cut_blob_late_versioned cut_blob_late_unversioned)
qed

text \<open>
  C5 as stated fails. On \<open>cut_blob_late\<close> the canonical attempt fails at the unenforced
  set; the object it leaves has the nonce, ciphertext, tag and enforced set it read, where
  the object before the attempt had none. The difference survives to the end of
  \<open>Deserialize\<close>: the enforced set of the final object is the one the failed canonical
  attempt stored, while the legacy parser run alone on the starting object leaves the
  enforced set as it was.
\<close>

theorem failed_canonical_attempt_commits_fields_counterexample:
  "\<not> fst (versioned_attempt plenty sample_ops blank cut_blob_late 0)
   \<and> nonce_m (fst (snd (versioned_attempt plenty sample_ops blank cut_blob_late 0)))
       = Some [1, 2, 3, 4, 5, 6, 7, 8, 9, 10, 11, 12]
   \<and> nonce_m blank = None
   \<and> enforced_m (fst (snd (versioned_attempt plenty sample_ops blank cut_blob_late 0)))
       = (Some 32, Some 128)
   \<and> enforced_m blank = (None, None)
   \<and> (case Deserialize plenty sample_ops blank cut_blob_late 0 of
         Inl f \<Rightarrow> False
       | Inr (r, b', p) \<Rightarrow> \<not> r \<and> enforced_m b' = (Some 32, Some 128))
   \<and> enforced_m (fst (snd (DeserializeUnversionedBlob plenty sample_ops blank cut_blob_late 0)))
       = (None, None)"
proof -
  have ne: "0 < length cut_blob_late" by (simp add: cut_blob_late_def)
  have d: "Deserialize plenty sample_ops blank cut_blob_late 0 =
     Inr (False, blank\<lparr>key_material_length_m := 0, enforced_m := (Some 32, Some 128),
                         nonce_m := Some [0, 12, 0, 0, 0, 1, 2, 3, 4, 5, 6, 7],
                         tag_m := Some (replicate 16 0), encrypted_key_material_m := None,
                         error_m := KM_ERROR_INVALID_KEY_BLOB\<rparr>, 12)"
    by (simp add: Deserialize_fallback[OF ne cut_blob_late_versioned] cut_blob_late_unversioned)
  show ?thesis
    by (simp add: d cut_blob_late_versioned cut_blob_late_unversioned)
       (simp add: blank_def KeyBlob_of_sets_def)
qed


section \<open>Parsing what Serialize wrote\<close>

lemma as_round_trip_at:
  "as_round_trip ops \<Longrightarrow> inp = pre @ as_Serialize ops s @ post \<Longrightarrow> pos = length pre \<Longrightarrow>
     as_Deserialize ops this inp pos = (True, s, pos + length (as_Serialize ops s))"
  by (simp add: as_round_trip_def)

lemma copy_size_and_data_at:
  "inp = pre @ encode_uint32 (length d) @ d @ post \<Longrightarrow> pos = length pre \<Longrightarrow>
   length d < 2 ^ 32 \<Longrightarrow> alloc_ok ev (length d) \<Longrightarrow>
     copy_size_and_data_from_buf ev inp pos = Some (length d, Some d, pos + 4 + length d)"
  by (simp add: copy_size_and_data_hit)

lemma versioned_attempt_wire:
  assumes rt: "as_round_trip ops"
    and ln: "length nonce = NONCE_LENGTH" and lt: "length tag = TAG_LENGTH"
    and lc: "length ct < 2 ^ 32"
    and an: "alloc_ok ev NONCE_LENGTH" and ac: "alloc_ok ev (length ct)"
    and at: "alloc_ok ev TAG_LENGTH"
  shows "versioned_attempt ev ops b (pre @ versioned_wire ops nonce ct tag enf unenf @ post) (length pre)
           = (True, b\<lparr>nonce_m := Some nonce, key_material_length_m := length ct,
                       encrypted_key_material_m := Some ct, tag_m := Some tag,
                       enforced_m := enf, unenforced_m := unenf\<rparr>,
              length pre + length (versioned_wire ops nonce ct tag enf unenf))"
proof -
  let ?E = "as_Serialize ops enf" and ?U = "as_Serialize ops unenf"
  let ?inp = "pre @ versioned_wire ops nonce ct tag enf unenf @ post"
  let ?p0 = "length pre"
  let ?p1 = "?p0 + 1 + 4 + NONCE_LENGTH"
  let ?p2 = "?p1 + 4 + length ct"
  let ?p3 = "?p2 + 4 + TAG_LENGTH"
  let ?p4 = "?p3 + length ?E"
  let ?p5 = "?p4 + length ?U"
  have v: "?inp ! ?p0 = BLOB_VERSION"
    by (simp add: versioned_wire_def BLOB_VERSION_def nth_append)
  have small: "length nonce < 2 ^ 32" "length tag < 2 ^ 32"
    by (simp_all add: ln lt NONCE_LENGTH_def TAG_LENGTH_def)
  have c1: "copy_size_and_data_from_buf ev ?inp (?p0 + 1) = Some (NONCE_LENGTH, Some nonce, ?p1)"
    using copy_size_and_data_at[of ?inp "pre @ [0]" nonce
            "(encode_uint32 (length ct) @ ct) @ (encode_uint32 (length tag) @ tag) @ ?E @ ?U @ post"
            "?p0 + 1" ev] small an
    by (simp add: versioned_wire_def ln)
  have c2: "copy_size_and_data_from_buf ev ?inp ?p1 = Some (length ct, Some ct, ?p2)"
    using copy_size_and_data_at[of ?inp "pre @ [0] @ encode_uint32 (length nonce) @ nonce" ct
            "(encode_uint32 (length tag) @ tag) @ ?E @ ?U @ post" ?p1 ev] lc ac
    by (simp add: versioned_wire_def ln length_encode_uint32)
  have c3: "copy_size_and_data_from_buf ev ?inp ?p2 = Some (TAG_LENGTH, Some tag, ?p3)"
    using copy_size_and_data_at[of ?inp
            "pre @ [0] @ (encode_uint32 (length nonce) @ nonce) @ encode_uint32 (length ct) @ ct" tag
            "?E @ ?U @ post" ?p2 ev] small at
    by (simp add: versioned_wire_def ln lt length_encode_uint32)
  have c4: "as_Deserialize ops (enforced_m b) ?inp ?p3 = (True, enf, ?p4)"
    using as_round_trip_at[OF rt, of ?inp
            "pre @ [0] @ (encode_uint32 (length nonce) @ nonce) @ (encode_uint32 (length ct) @ ct)
               @ encode_uint32 (length tag) @ tag" enf "?U @ post" ?p3 "enforced_m b"]
    by (simp add: versioned_wire_def ln lt length_encode_uint32)
  have c5: "as_Deserialize ops (unenforced_m b) ?inp ?p4 = (True, unenf, ?p5)"
    using as_round_trip_at[OF rt, of ?inp
            "pre @ [0] @ (encode_uint32 (length nonce) @ nonce) @ (encode_uint32 (length ct) @ ct)
               @ (encode_uint32 (length tag) @ tag) @ ?E" unenf post ?p4 "unenforced_m b"]
    by (simp add: versioned_wire_def ln lt length_encode_uint32)
  have "?p5 = length pre + length (versioned_wire ops nonce ct tag enf unenf)"
    by (simp add: length_versioned_wire ln lt)
  with versioned_attempt_layout[OF v c1 c2 c3 c4 c5] show ?thesis by simp
qed

lemma sample_round_trip: "as_round_trip sample_ops"
  unfolding as_round_trip_def
proof (intro allI)
  fix this s :: sample_set and pre post :: "byte list"
  obtain a k where s: "s = (a, k)" by (cases s) auto
  show "as_Deserialize sample_ops this (pre @ as_Serialize sample_ops s @ post) (length pre) =
         (True, s, length pre + length (as_Serialize sample_ops s))"
    by (cases a; cases k) (simp_all add: s sample_ops_simps)
qed


lemma read_array_Some: "n = length bs \<Longrightarrow> read_array (Some bs) n = Inr bs"
  by (simp add: read_array_def)

lemma Serialize_of_SetEncryptedKey:
  assumes sz: "as_size_exact ops"
    and ln: "length nonce = NONCE_LENGTH" and lt: "length tag = TAG_LENGTH"
    and blob: "blob = SetEncryptedKey (KeyBlob_of_sets l0 a0 k0 enf unenf) ct (length ct) nonce tag"
    and fit: "start + SerializedSize ops blob \<le> length out"
    and nw: "size_fits ops blob"
  shows "Serialize ops blob out start =
           Inr (take start out @ versioned_wire ops nonce ct tag enf unenf
                  @ drop (start + SerializedSize ops blob) out,
                start + SerializedSize ops blob)"
    and "SerializedSize ops blob = length (versioned_wire ops nonce ct tag enf unenf)"
proof -
  have f: "nonce_m blob = Some nonce" "encrypted_key_material_m blob = Some ct"
    "key_material_length_m blob = length ct" "tag_m blob = Some tag"
    "enforced_m blob = enf" "unenforced_m blob = unenf"
    by (simp_all add: blob SetEncryptedKey_def KeyBlob_of_sets_def)
  have r: "read_array (nonce_m blob) NONCE_LENGTH = Inr nonce"
    "read_array (encrypted_key_material_m blob) (key_material_length_m blob) = Inr ct"
    "read_array (tag_m blob) TAG_LENGTH = Inr tag"
    by (simp_all add: f read_array_Some ln lt)
  show "Serialize ops blob out start =
           Inr (take start out @ versioned_wire ops nonce ct tag enf unenf
                  @ drop (start + SerializedSize ops blob) out,
                start + SerializedSize ops blob)"
    using Serialize_wire[OF sz nw r fit] by (simp add: f)
  show "SerializedSize ops blob = length (versioned_wire ops nonce ct tag enf unenf)"
    using sz by (simp add: SerializedSize_fits[OF nw] length_versioned_wire f ln lt as_size_exact_def)
qed

lemma sample_blob_eq:
  "sample_blob = SetEncryptedKey (KeyBlob_of_sets 0 0 0 (Some 32, Some 128) (None, None))
       [0xAA, 0xAA] (length [0xAA, 0xAA :: byte]) (replicate 12 0) (replicate 16 0)"
  by (simp add: sample_blob_def numeral_2_eq_2)

text \<open>
  C2, amended: take a KeyBlob built from two policy sets and given by \<open>SetEncryptedKey\<close>
  a ciphertext shorter than 2^32 bytes (what the 4-byte length field can carry), a nonce of
  NONCE\_LENGTH bytes and a tag of TAG\_LENGTH bytes, with a serialized size below 2^64.
  With a buffer that has room, policy sets that keep their contract and allocations that
  succeed, \<open>Serialize\<close> succeeds, and \<open>Deserialize\<close> on what it wrote, from the same
  starting position and into any object, stops behind the blob with the same nonce,
  ciphertext, ciphertext length, tag and policy sets. It returns true, with the error field
  of the receiving object unchanged, exactly when ALGORITHM and KEY\_SIZE are each found in
  the enforced or the unenforced set; it returns false with the unsupported-algorithm error
  when ALGORITHM is in neither set, and false with the unsupported-key-size error when
  ALGORITHM is found and KEY\_SIZE is in neither set.
\<close>

theorem Serialize_Deserialize_round_trip:
  assumes rt: "as_round_trip ops" and sz: "as_size_exact ops"
    and ln: "length nonce = NONCE_LENGTH" and lt: "length tag = TAG_LENGTH"
    and lc: "length ct < 2 ^ 32"
    and an: "alloc_ok ev NONCE_LENGTH" and ac: "alloc_ok ev (length ct)"
    and at: "alloc_ok ev TAG_LENGTH"
    and blob: "blob = SetEncryptedKey (KeyBlob_of_sets l0 a0 k0 enf unenf) ct (length ct) nonce tag"
    and nw: "size_fits ops blob"
    and fit: "start + SerializedSize ops blob \<le> length out"
  shows "\<exists>out' r b'.
           Serialize ops blob out start = Inr (out', start + SerializedSize ops blob)
           \<and> Deserialize ev ops b0 out' start = Inr (r, b', start + SerializedSize ops blob)
           \<and> nonce_m b' = Some nonce \<and> encrypted_key_material_m b' = Some ct
           \<and> key_material_length_m b' = length ct \<and> tag_m b' = Some tag
           \<and> enforced_m b' = enf \<and> unenforced_m b' = unenf
           \<and> (r \<longleftrightarrow> has_tag ops blob TAG_ALGORITHM \<and> has_tag ops blob TAG_KEY_SIZE)
           \<and> (r \<longrightarrow> error_m b' = error_m b0)
           \<and> (\<not> has_tag ops blob TAG_ALGORITHM \<longrightarrow>
                error_m b' = KM_ERROR_UNSUPPORTED_ALGORITHM)
           \<and> (has_tag ops blob TAG_ALGORITHM \<and> \<not> has_tag ops blob TAG_KEY_SIZE \<longrightarrow>
                error_m b' = KM_ERROR_UNSUPPORTED_KEY_SIZE)"
proof -
  let ?W = "versioned_wire ops nonce ct tag enf unenf"
  let ?n = "SerializedSize ops blob"
  let ?out = "take start out @ ?W @ drop (start + ?n) out"
  let ?b1 = "b0\<lparr>nonce_m := Some nonce, key_material_length_m := length ct,
                  encrypted_key_material_m := Some ct, tag_m := Some tag,
                  enforced_m := enf, unenforced_m := unenf\<rparr>"
  have ser: "Serialize ops blob out start = Inr (?out, start + ?n)" and size: "?n = length ?W"
    using Serialize_of_SetEncryptedKey[OF sz ln lt blob fit nw] by simp_all
  have ls: "length (take start out) = start" using fit by simp
  have va: "versioned_attempt ev ops b0 ?out start = (True, ?b1, start + ?n)"
    using versioned_attempt_wire[OF rt ln lt lc an ac at, of b0 "take start out" enf unenf
            "drop (start + ?n) out"]
    by (simp only: ls size)
  have pos: "start < length ?out"
    using fit by (simp add: size length_versioned_wire)
  obtain r b' where ex: "ExtractKeyCharacteristics ops ?b1 = (r, b')"
    by (cases "ExtractKeyCharacteristics ops ?b1") auto
  have ht: "has_tag ops ?b1 t = has_tag ops blob t" for t
    by (simp add: has_tag_def blob SetEncryptedKey_def KeyBlob_of_sets_def)
  have d: "Deserialize ev ops b0 ?out start = Inr (r, b', start + ?n)"
    using Deserialize_canonical[OF pos va] ex by simp
  have keep: "nonce_m b' = Some nonce" "encrypted_key_material_m b' = Some ct"
    "key_material_length_m b' = length ct" "tag_m b' = Some tag"
    "enforced_m b' = enf" "unenforced_m b' = unenf"
    using Extract_outcome(3-8)[OF ex] by simp_all
  have res: "(r \<longleftrightarrow> has_tag ops blob TAG_ALGORITHM \<and> has_tag ops blob TAG_KEY_SIZE)"
    "r \<longrightarrow> error_m b' = error_m b0"
    "\<not> has_tag ops blob TAG_ALGORITHM \<longrightarrow> error_m b' = KM_ERROR_UNSUPPORTED_ALGORITHM"
    "has_tag ops blob TAG_ALGORITHM \<and> \<not> has_tag ops blob TAG_KEY_SIZE \<longrightarrow>
       error_m b' = KM_ERROR_UNSUPPORTED_KEY_SIZE"
    using Extract_outcome(1,2)[OF ex] by (simp_all add: extraction_result_def ht)
  from ser d keep res show ?thesis by blast
qed

theorem Serialize_Deserialize_round_trip_witness:
  "\<exists>out' b'.
     Serialize sample_ops sample_blob (replicate 60 7) 3 = Inr (out', 52)
     \<and> Deserialize plenty sample_ops blank out' 3 = Inr (True, b', 52)
     \<and> nonce_m b' = Some (replicate 12 0) \<and> encrypted_key_material_m b' = Some [0xAA, 0xAA]
     \<and> key_material_length_m b' = 2 \<and> tag_m b' = Some (replicate 16 0)
     \<and> enforced_m b' = (Some 32, Some 128) \<and> unenforced_m b' = (None, None)
     \<and> error_m b' = KM_ERROR_OK"
proof -
  have sz: "SerializedSize sample_ops sample_blob = 49"
    by (simp add: SerializedSize_def sample_blob_simps sample_ops_def sample_Serialize_def)
  have ok: "alloc_ok plenty n" for n by (simp add: plenty_def)
  have e: "error_m blank = KM_ERROR_OK" by (simp add: blank_def KeyBlob_of_sets_def)
  have h3: "length (replicate 12 (0 :: byte)) = NONCE_LENGTH"
    and h4: "length (replicate 16 (0 :: byte)) = TAG_LENGTH"
    and h5: "length [0xAA, 0xAA :: byte] < 2 ^ 32"
    by (simp_all add: NONCE_LENGTH_def TAG_LENGTH_def)
  have g: "has_tag sample_ops sample_blob TAG_ALGORITHM" "has_tag sample_ops sample_blob TAG_KEY_SIZE"
    by (simp_all add: has_tag_def sample_ops_def sample_blob_simps)
  have fit: "3 + SerializedSize sample_ops sample_blob \<le> length (replicate 60 (7 :: byte))"
    by (simp add: sz)
  show ?thesis
    using Serialize_Deserialize_round_trip
            [OF sample_round_trip sample_size_exact h3 h4 h5 ok ok ok sample_blob_eq
               sample_blob_fits fit, of blank]
    by (auto simp: sz e g numeral_2_eq_2)
qed

text \<open>
  C2 as stated fails: a KeyBlob built from two empty policy sets serializes, and
  \<open>Deserialize\<close> on the result returns false with the unsupported-algorithm error. And
  the 4-byte length field written for a ciphertext of 2^32 bytes is that of an empty one.
\<close>

theorem round_trip_without_attributes_counterexample:
  "(case Serialize sample_ops bare_blob (replicate 47 0) 0 of
      Inl f \<Rightarrow> False
    | Inr (out', n) \<Rightarrow>
        n = 47 \<and>
        (case Deserialize plenty sample_ops blank out' 0 of
           Inl f \<Rightarrow> False
         | Inr (r, b', p) \<Rightarrow> \<not> r \<and> error_m b' = KM_ERROR_UNSUPPORTED_ALGORITHM))
   \<and> encode_uint32 4294967296 = encode_uint32 0"
proof -
  let ?W = "versioned_wire sample_ops (replicate 12 0) [0xAA, 0xAA] (replicate 16 0) (None, None) (None, None)"
  have bb: "bare_blob = SetEncryptedKey (KeyBlob_of_sets 0 0 0 (None, None) (None, None))
       [0xAA, 0xAA] (length [0xAA, 0xAA :: byte]) (replicate 12 0) (replicate 16 0)"
    by (simp add: bare_blob_def numeral_2_eq_2)
  have sz: "SerializedSize sample_ops bare_blob = 47"
    by (simp add: SerializedSize_def bare_blob_def sample_blob_simps sample_ops_def
          sample_Serialize_def)
  have fits: "size_fits sample_ops bare_blob"
    by (simp add: size_fits_def bare_blob_def sample_blob_simps sample_ops_def
          sample_Serialize_def)
  have lw: "length ?W = 47"
    by (simp add: length_versioned_wire sample_ops_def sample_Serialize_def)
  have ser: "Serialize sample_ops bare_blob (replicate 47 0) 0 = Inr (?W, 47)"
    using Serialize_of_SetEncryptedKey(1)[OF sample_size_exact _ _ bb, of 0 "replicate 47 0"] fits
    by (simp add: sz NONCE_LENGTH_def TAG_LENGTH_def)
  have ok: "alloc_ok plenty n" for n by (simp add: plenty_def)
  have va: "versioned_attempt plenty sample_ops blank ([] @ ?W @ []) (length ([] :: byte list))
      = (True, blank\<lparr>nonce_m := Some (replicate 12 0), key_material_length_m := length [0xAA, 0xAA :: byte],
                       encrypted_key_material_m := Some [0xAA, 0xAA], tag_m := Some (replicate 16 0),
                       enforced_m := (None, None), unenforced_m := (None, None)\<rparr>,
         length ([] :: byte list) + length ?W)"
    by (rule versioned_attempt_wire[OF sample_round_trip])
       (simp_all add: ok NONCE_LENGTH_def TAG_LENGTH_def)
  have pos: "0 < length ?W" by (simp add: lw)
  have d: "Deserialize plenty sample_ops blank ?W 0 =
      (case ExtractKeyCharacteristics sample_ops
              (blank\<lparr>nonce_m := Some (replicate 12 0), key_material_length_m := length [0xAA, 0xAA :: byte],
                       encrypted_key_material_m := Some [0xAA, 0xAA], tag_m := Some (replicate 16 0),
                       enforced_m := (None, None), unenforced_m := (None, None)\<rparr>) of
         (r, b3) \<Rightarrow> Inr (r, b3, 0 + length ?W))"
    using Deserialize_canonical[OF pos, of plenty sample_ops blank] va by simp
  have pre: "encode_uint32 4294967296 = encode_uint32 0"
    by (simp add: encode_uint32_def)
  show ?thesis
    by (simp add: ser d pre) (simp add: ExtractKeyCharacteristics_def sample_ops_def)
qed


section \<open>Parsing a blob cut short\<close>

lemma copy_size_and_data_take_complete:
  assumes "inp = take k (pre @ encode_uint32 n @ d @ post)" "length d = n" "n < 2 ^ 32"
    "pos = length pre" "pos + 4 + n \<le> k"
  shows "copy_size_and_data_from_buf ev inp pos
           = (if alloc_ok ev n then Some (n, Some d, pos + 4 + n) else None)"
proof -
  have e: "inp = pre @ encode_uint32 n @ d @ take (k - (pos + 4 + n)) post"
    using assms by (simp add: length_encode_uint32)
  show ?thesis
    unfolding e using assms(2,3,4)
    by (simp add: copy_size_and_data_from_buf_def length_encode_uint32 decode_encode_uint32 Let_def)
qed

lemma copy_size_and_data_take_cut:
  assumes "inp = take k (pre @ encode_uint32 n @ d @ post)" "length d = n" "n < 2 ^ 32"
    "pos = length pre" "k < pos + 4 + n"
  shows "copy_size_and_data_from_buf ev inp pos = None"
proof (cases "pos + 4 \<le> k")
  case False
  then show ?thesis using assms by (simp add: copy_size_and_data_from_buf_def)
next
  case True
  have li: "length inp = k" using assms by (simp add: length_encode_uint32)
  have "take 4 (drop pos inp) = encode_uint32 n"
    using True assms(1,4) by (simp add: drop_take length_encode_uint32)
  then show ?thesis
    using assms(3,5) li by (simp add: copy_size_and_data_from_buf_def decode_encode_uint32 Let_def)
qed

lemma as_Deserialize_take_complete:
  assumes "as_round_trip ops" "inp = take k (pre @ as_Serialize ops s @ post)"
    "pos = length pre" "pos + length (as_Serialize ops s) \<le> k"
  shows "as_Deserialize ops this inp pos = (True, s, pos + length (as_Serialize ops s))"
proof -
  have e: "inp = pre @ as_Serialize ops s @ take (k - (pos + length (as_Serialize ops s))) post"
    using assms by simp
  show ?thesis unfolding e using assms(1,3) by (simp add: as_round_trip_def)
qed

lemma as_Deserialize_take_cut:
  assumes "as_rejects_truncation ops" "inp = take k (pre @ as_Serialize ops s @ post)"
    "pos = length pre" "pos \<le> k" "k < pos + length (as_Serialize ops s)"
  shows "\<not> fst (as_Deserialize ops this inp pos)"
proof -
  have e: "inp = pre @ take (k - pos) (as_Serialize ops s)"
    using assms by simp
  have "k - pos < length (as_Serialize ops s)" using assms by simp
  then show ?thesis unfolding e using assms(1,3) by (simp add: as_rejects_truncation_def)
qed


lemma versioned_attempt_truncated:
  assumes rt: "as_round_trip ops" and tr: "as_rejects_truncation ops"
    and ln: "length nonce = NONCE_LENGTH" and lt: "length tag = TAG_LENGTH"
    and lc: "length ct < 2 ^ 32"
    and k: "k < length (versioned_wire ops nonce ct tag enf unenf)"
  shows "\<not> fst (versioned_attempt ev ops b (take k (versioned_wire ops nonce ct tag enf unenf)) 0)"
proof -
  let ?E = "as_Serialize ops enf" and ?U = "as_Serialize ops unenf"
  let ?W = "versioned_wire ops nonce ct tag enf unenf"
  let ?I = "take k ?W"
  let ?n = "length ct"
  let ?P1 = "[0 :: byte]"
  let ?P2 = "?P1 @ encode_uint32 (length nonce) @ nonce"
  let ?P3 = "?P2 @ encode_uint32 ?n @ ct"
  let ?P4 = "?P3 @ encode_uint32 (length tag) @ tag"
  let ?P5 = "?P4 @ ?E"
  have ln': "length nonce = 12" and lt': "length tag = 16"
    using ln lt by (simp_all add: NONCE_LENGTH_def TAG_LENGTH_def)
  have W1: "?I = take k (?P1 @ encode_uint32 12 @ nonce
                   @ ((encode_uint32 ?n @ ct) @ (encode_uint32 (length tag) @ tag) @ ?E @ ?U))"
    and W2: "?I = take k (?P2 @ encode_uint32 ?n @ ct @ ((encode_uint32 (length tag) @ tag) @ ?E @ ?U))"
    and W3: "?I = take k (?P3 @ encode_uint32 16 @ tag @ (?E @ ?U))"
    and W4: "?I = take k (?P4 @ ?E @ ?U)"
    and W5: "?I = take k (?P5 @ ?U @ [])"
    by (simp_all add: versioned_wire_def ln' lt')
  have l1: "Suc 0 = length ?P1" and l2: "17 = length ?P2" and l3: "21 + ?n = length ?P3"
    and l4: "41 + ?n = length ?P4" and l5: "41 + ?n + length ?E = length ?P5"
    by (simp_all add: length_encode_uint32 ln' lt')
  have lW: "length ?W = 41 + ?n + length ?E + length ?U"
    by (simp add: length_versioned_wire ln' lt')
  have small: "(12 :: nat) < 2 ^ 32" "(16 :: nat) < 2 ^ 32" by simp_all
  have t1: "copy_size_and_data_from_buf ev ?I (Suc 0) = None" if "k < 17"
    by (rule copy_size_and_data_take_cut[OF W1 ln' small(1) l1]) (use that in simp)
  have c1: "copy_size_and_data_from_buf ev ?I (Suc 0)
              = (if alloc_ok ev 12 then Some (12, Some nonce, 17) else None)" if "17 \<le> k"
    using copy_size_and_data_take_complete[OF W1 ln' small(1) l1, of ev] that by simp
  have t2: "copy_size_and_data_from_buf ev ?I 17 = None" if "k < 21 + ?n"
    by (rule copy_size_and_data_take_cut[OF W2 refl lc l2]) (use that in simp)
  have c2: "copy_size_and_data_from_buf ev ?I 17
              = (if alloc_ok ev ?n then Some (?n, Some ct, 21 + ?n) else None)" if "21 + ?n \<le> k"
    using copy_size_and_data_take_complete[OF W2 refl lc l2, of ev] that by simp
  have t3: "copy_size_and_data_from_buf ev ?I (21 + ?n) = None" if "k < 41 + ?n"
    by (rule copy_size_and_data_take_cut[OF W3 lt' small(2) l3]) (use that in simp)
  have c3: "copy_size_and_data_from_buf ev ?I (21 + ?n)
              = (if alloc_ok ev 16 then Some (16, Some tag, 41 + ?n) else None)" if "41 + ?n \<le> k"
    using copy_size_and_data_take_complete[OF W3 lt' small(2) l3, of ev] that by simp
  have t4: "\<not> fst (as_Deserialize ops this ?I (41 + ?n))"
    if "41 + ?n \<le> k" "k < 41 + ?n + length ?E" for this
    by (rule as_Deserialize_take_cut[OF tr W4 l4]) (use that in simp_all)
  have c4: "as_Deserialize ops this ?I (41 + ?n) = (True, enf, 41 + ?n + length ?E)"
    if "41 + ?n + length ?E \<le> k" for this
    using as_Deserialize_take_complete[OF rt W4 l4, of this] that by simp
  have t5: "\<not> fst (as_Deserialize ops this ?I (41 + ?n + length ?E))"
    if "41 + ?n + length ?E \<le> k" for this
    by (rule as_Deserialize_take_cut[OF tr W5 l5]) (use that k lW in simp_all)
  consider "k < 17" | "17 \<le> k" "k < 21 + ?n" | "21 + ?n \<le> k" "k < 41 + ?n"
    | "41 + ?n \<le> k" "k < 41 + ?n + length ?E" | "41 + ?n + length ?E \<le> k"
    by linarith
  then show ?thesis
  proof cases
    case 1
    then show ?thesis
      by (simp add: versioned_attempt_def parse_versioned_def t1)
  next
    case 2
    then show ?thesis
      by (simp add: versioned_attempt_def parse_versioned_def c1 t2 NONCE_LENGTH_def)
  next
    case 3
    then show ?thesis
      by (simp add: versioned_attempt_def parse_versioned_def c1 c2 t3 NONCE_LENGTH_def)
  next
    case 4
    then have a: "17 \<le> k" "21 + ?n \<le> k" "41 + ?n \<le> k" by simp_all
    show ?thesis
      using t4[OF 4, of "enforced_m b"]
      by (auto simp: versioned_attempt_def parse_versioned_def c1[OF a(1)] c2[OF a(2)] c3[OF a(3)]
            NONCE_LENGTH_def TAG_LENGTH_def Let_def split: prod.splits)
  next
    case 5
    then have a: "17 \<le> k" "21 + ?n \<le> k" "41 + ?n \<le> k" by simp_all
    show ?thesis
      using t5[OF 5, of "unenforced_m b"]
      by (auto simp: versioned_attempt_def parse_versioned_def c1[OF a(1)] c2[OF a(2)] c3[OF a(3)]
            c4[OF 5] NONCE_LENGTH_def TAG_LENGTH_def Let_def split: prod.splits)
  qed
qed


lemma parse_unversioned_short:
  "length inp < NONCE_LENGTH + 4 + TAG_LENGTH \<Longrightarrow> \<not> fst (parse_unversioned ev ops b inp 0)"
  by (auto simp: parse_unversioned_def copy_from_buf_def copy_size_and_data_from_buf_def
        NONCE_LENGTH_def TAG_LENGTH_def Let_def split: option.splits if_splits)

lemma sample_rejects_truncation: "as_rejects_truncation sample_ops"
  unfolding as_rejects_truncation_def
proof (intro allI impI)
  fix this s :: sample_set and pre :: "byte list" and k :: nat
  assume k: "k < length (as_Serialize sample_ops s)"
  obtain a c where s: "s = (a, c)" by (cases s) auto
  have "k = 0 \<or> k = 1 \<or> k = 2 \<or> k = 3"
    using k by (cases a; cases c) (auto simp: s sample_ops_simps)
  then show "\<not> fst (as_Deserialize sample_ops this (pre @ take k (as_Serialize sample_ops s)) (length pre))"
    using k by (cases a; cases c) (auto simp: s sample_ops_simps)
qed

lemma trap_blob_Serialize:
  "Serialize sample_ops trap_blob (replicate 64 0) 0 =
     Inr ([0, 12, 0, 0, 0] @ [0, 0, 0, 0, 0, 0, 0, 0, 0, 0, 0, 0] @ [17, 0, 0, 0]
            @ [0, 0, 0, 0, 0, 0, 0, 0, 0, 0, 0, 1, 32, 1, 128, 0, 0]
            @ [16, 0, 0, 0] @ [0, 0, 0, 0, 0, 0, 0, 0, 0, 0, 0, 0, 0, 0, 0, 0]
            @ [1, 32, 1, 128] @ [0, 0], 64)"
proof -
  have l17: "length ([0, 0, 0, 0, 0, 0, 0, 0, 0, 0, 0, 1, 32, 1, 128, 0, 0] :: byte list) = 17"
    by simp
  have tb: "trap_blob = SetEncryptedKey (KeyBlob_of_sets 0 0 0 (Some 32, Some 128) (None, None))
       [0, 0, 0, 0, 0, 0, 0, 0, 0, 0, 0, 1, 32, 1, 128, 0, 0]
       (length ([0, 0, 0, 0, 0, 0, 0, 0, 0, 0, 0, 1, 32, 1, 128, 0, 0] :: byte list))
       [0, 0, 0, 0, 0, 0, 0, 0, 0, 0, 0, 0]
       [0, 0, 0, 0, 0, 0, 0, 0, 0, 0, 0, 0, 0, 0, 0, 0]"
    by (simp only: trap_blob_def l17)
  have fits: "size_fits sample_ops trap_blob"
    by (simp add: size_fits_def trap_blob_def sample_blob_simps sample_ops_def
          sample_Serialize_def)
  have sz: "SerializedSize sample_ops trap_blob = 64"
    by (simp add: SerializedSize_def trap_blob_def sample_blob_simps sample_ops_def
          sample_Serialize_def)
  have "Serialize sample_ops trap_blob (replicate 64 0) 0 =
      Inr (versioned_wire sample_ops [0, 0, 0, 0, 0, 0, 0, 0, 0, 0, 0, 0]
             [0, 0, 0, 0, 0, 0, 0, 0, 0, 0, 0, 1, 32, 1, 128, 0, 0]
             [0, 0, 0, 0, 0, 0, 0, 0, 0, 0, 0, 0, 0, 0, 0, 0] (Some 32, Some 128) (None, None), 64)"
    using Serialize_of_SetEncryptedKey(1)[OF sample_size_exact _ _ tb, of 0 "replicate 64 0"] fits
    by (simp add: sz NONCE_LENGTH_def TAG_LENGTH_def)
  then show ?thesis
    by (simp add: versioned_wire_def encode_uint32_def sample_ops_def sample_Serialize_def)
qed

text \<open>
  C4 as stated fails: the blob \<open>trap_blob\<close> serializes to 64 bytes, and
  \<open>Deserialize\<close> on its first 38 bytes returns true. The canonical attempt fails at the
  missing tag; the legacy attempt reads the first 12 bytes as nonce, a ciphertext length of
  zero, the next 16 bytes as tag, and finds two well-formed policy sets in what was the
  ciphertext.
\<close>

theorem truncated_blob_accepted_counterexample:
  "(case Serialize sample_ops trap_blob (replicate 64 0) 0 of
      Inl f \<Rightarrow> False
    | Inr (out', n) \<Rightarrow>
        n = 64 \<and>
        (case Deserialize plenty sample_ops blank (take 38 out') 0 of
           Inl f \<Rightarrow> False
         | Inr (r, b', p) \<Rightarrow> r \<and> error_m b' = KM_ERROR_OK))"
  by (simp add: trap_blob_Serialize)
     (simp add: run_simps sample_ops_simps KeyBlob_of_sets_def NONCE_LENGTH_def TAG_LENGTH_def)


text \<open>
  C4, amended: take a serialized blob (nonce of NONCE\_LENGTH bytes, tag of TAG\_LENGTH
  bytes, ciphertext shorter than 2^32 bytes, serialized size below 2^64, policy sets that
  keep their contract and reject a cut serialization) and any non-empty proper prefix of it.
  On the prefix the canonical attempt of \<open>Deserialize\<close> fails, so the call returns what
  the legacy attempt makes of the prefix: false with the allocation-failure error when the
  legacy nonce or tag allocation fails; false with the invalid-blob error when the
  allocations succeed and the legacy read chain fails on the prefix, as it does for every
  prefix shorter than NONCE\_LENGTH + 4 + TAG\_LENGTH bytes; and, when the legacy read chain
  succeeds on the prefix, the result of characteristic extraction on what it read: true
  exactly when ALGORITHM and KEY\_SIZE are both found in the policy sets read from the
  prefix, false with the unsupported-algorithm error when ALGORITHM is in neither, false
  with the unsupported-key-size error when ALGORITHM is found and KEY\_SIZE is in neither.
  A call that returns true leaves the error field unchanged.
\<close>

theorem Deserialize_truncated:
  assumes rt: "as_round_trip ops" and tr: "as_rejects_truncation ops" and sz: "as_size_exact ops"
    and ln: "length nonce = NONCE_LENGTH" and lt: "length tag = TAG_LENGTH"
    and lc: "length ct < 2 ^ 32"
    and blob: "blob = SetEncryptedKey (KeyBlob_of_sets l0 a0 k0 enf unenf) ct (length ct) nonce tag"
    and nw: "size_fits ops blob"
    and room: "SerializedSize ops blob \<le> length out"
    and ser0: "Serialize ops blob out 0 = Inr (out', n)"
    and k0: "0 < k" and kn: "k < n"
  shows "n = SerializedSize ops blob
     \<and> \<not> fst (versioned_attempt ev ops b0 (take k out') 0)
     \<and> (case Deserialize ev ops b0 (take k out') 0 of
          Inl f \<Rightarrow> False
        | Inr (r, b', p) \<Rightarrow>
            legacy_result ev ops (fst (snd (versioned_attempt ev ops b0 (take k out') 0)))
              (take k out') 0 r (error_m b')
          \<and> (r \<longrightarrow> error_m b' = error_m b0)
          \<and> (alloc_ok ev NONCE_LENGTH \<and> alloc_ok ev TAG_LENGTH
               \<and> k < NONCE_LENGTH + 4 + TAG_LENGTH \<longrightarrow>
               \<not> r \<and> error_m b' = KM_ERROR_INVALID_KEY_BLOB))"
proof -
  let ?W = "versioned_wire ops nonce ct tag enf unenf"
  let ?I = "take k out'"
  have fit: "0 + SerializedSize ops blob \<le> length out" using room by simp
  have ser: "Serialize ops blob out 0 = Inr (take 0 out @ ?W @ drop (0 + SerializedSize ops blob) out,
               0 + SerializedSize ops blob)"
    and size: "SerializedSize ops blob = length ?W"
    using Serialize_of_SetEncryptedKey[OF sz ln lt blob fit nw] by simp_all
  have n: "n = SerializedSize ops blob" and out': "out' = ?W @ drop (SerializedSize ops blob) out"
    using ser ser0 by simp_all
  have kW: "k < length ?W" using kn n size by simp
  have I: "?I = take k ?W" using kW by (simp add: out')
  have lI: "length ?I = k" using kW by (simp add: I)
  have pos: "0 < length ?I" using k0 lI by simp
  have nofst: "\<not> fst (versioned_attempt ev ops b0 ?I 0)"
    unfolding I by (rule versioned_attempt_truncated[OF rt tr ln lt lc kW])
  obtain b1 p1 where va: "versioned_attempt ev ops b0 ?I 0 = (False, b1, p1)"
    using nofst by (cases "versioned_attempt ev ops b0 ?I 0") auto
  obtain r b' p where du: "DeserializeUnversionedBlob ev ops b1 ?I 0 = (r, b', p)"
    by (cases "DeserializeUnversionedBlob ev ops b1 ?I 0") auto
  have d: "Deserialize ev ops b0 ?I 0 = Inr (r, b', p)"
    by (rule Deserialize_after_fallback[OF pos va du])
  have lr: "legacy_result ev ops b1 ?I 0 r (error_m b')"
    by (rule Unversioned_outcome[OF du])
  have e1: "error_m b1 = error_m b0" using versioned_attempt_keeps[OF va] by simp
  have keep: "r \<longrightarrow> error_m b' = error_m b0"
    using Unversioned_error[OF du] e1 by (auto split: if_splits)
  have short: "\<not> r \<and> error_m b' = KM_ERROR_INVALID_KEY_BLOB"
    if "alloc_ok ev NONCE_LENGTH \<and> alloc_ok ev TAG_LENGTH \<and> k < NONCE_LENGTH + 4 + TAG_LENGTH"
    using parse_unversioned_short[of ?I ev ops "fresh_buffers ev b1"] that lI lr
    by (simp add: legacy_result_def)
  show ?thesis
    unfolding va d fst_conv snd_conv using n lr keep short by simp
qed

theorem Deserialize_truncated_witness:
  "\<not> fst (versioned_attempt plenty sample_ops blank
             (take 20 ([0] @ (encode_uint32 12 @ replicate 12 5) @ (encode_uint32 2 @ [170, 171])
                @ (encode_uint32 16 @ replicate 16 6) @ [1, 32, 1, 128] @ [0, 0])) 0)
   \<and> (case Deserialize plenty sample_ops blank
             (take 20 ([0] @ (encode_uint32 12 @ replicate 12 5) @ (encode_uint32 2 @ [170, 171])
                @ (encode_uint32 16 @ replicate 16 6) @ [1, 32, 1, 128] @ [0, 0])) 0 of
         Inl f \<Rightarrow> False
       | Inr (r, b', p) \<Rightarrow> \<not> r \<and> error_m b' = KM_ERROR_INVALID_KEY_BLOB)"
proof -
  let ?W = "[0] @ (encode_uint32 12 @ replicate 12 5) @ (encode_uint32 2 @ [170, 171])
                @ (encode_uint32 16 @ replicate 16 6) @ [1, 32, 1, 128] @ [0, 0 :: byte]"
  let ?blob = "SetEncryptedKey (KeyBlob_of_sets 0 0 0 (Some 32, Some 128) (None, None))
                 [170, 171] (length [170, 171 :: byte]) (replicate 12 5) (replicate 16 6)"
  have h4: "length (replicate 12 (5 :: byte)) = NONCE_LENGTH"
    and h5: "length (replicate 16 (6 :: byte)) = TAG_LENGTH"
    and h6: "length [170, 171 :: byte] < 2 ^ 32"
    by (simp_all add: NONCE_LENGTH_def TAG_LENGTH_def)
  have fits: "size_fits sample_ops ?blob"
    by (simp add: size_fits_def sample_blob_simps sample_ops_def sample_Serialize_def)
  have sz: "SerializedSize sample_ops ?blob = 49"
    by (simp add: SerializedSize_def sample_blob_simps sample_ops_def sample_Serialize_def)
  have fit: "SerializedSize sample_ops ?blob \<le> length (replicate 49 (0 :: byte))"
    and fit0: "0 + SerializedSize sample_ops ?blob \<le> length (replicate 49 (0 :: byte))"
    unfolding sz by simp_all
  have ser: "Serialize sample_ops ?blob (replicate 49 0) 0 = Inr (?W, 49)"
    using Serialize_of_SetEncryptedKey(1)[OF sample_size_exact h4 h5 refl fit0 fits]
    unfolding sz
    by (simp add: versioned_wire_def sample_ops_def sample_Serialize_def numeral_2_eq_2)
  have ok: "alloc_ok plenty n" for n by (simp add: plenty_def)
  have k: "(0 :: nat) < 20" "(20 :: nat) < 49" by simp_all
  show ?thesis
    using Deserialize_truncated[OF sample_round_trip sample_rejects_truncation sample_size_exact
            h4 h5 h6 refl fits fit ser k, of plenty blank]
    by (simp add: ok NONCE_LENGTH_def TAG_LENGTH_def split: sum.splits prod.splits)
qed

end
